theory Spec2Isabelle
  imports Complex_Main "HOL-Library.Word"
begin

unbundle bit_operations_syntax

section \<open>JavaScript values used by the components\<close>

text \<open>
  A JavaScript string is a sequence of UTF-16 code units. The empty string is the only
  falsy string.
\<close>

type_synonym jstring = "16 word list"

text \<open>
  \<^verbatim>\<open>String.prototype.trim\<close> removes the ECMAScript WhiteSpace and LineTerminator
  code points from both ends of a string.
\<close>

definition isWhiteSpace :: "16 word \<Rightarrow> bool" where
  "isWhiteSpace c \<longleftrightarrow>
     c \<in> set [0x0009, 0x000A, 0x000B, 0x000C, 0x000D, 0x0020, 0x00A0, 0x1680,
               0x2000, 0x2001, 0x2002, 0x2003, 0x2004, 0x2005, 0x2006, 0x2007,
               0x2008, 0x2009, 0x200A, 0x2028, 0x2029, 0x202F, 0x205F, 0x3000, 0xFEFF]"

definition trim :: "jstring \<Rightarrow> jstring" where
  "trim s = rev (dropWhile isWhiteSpace (rev (dropWhile isWhiteSpace s)))"

section \<open>The localization provider (src/LanguageContext.tsx, lines 1-44)\<close>

datatype Language = En | Ar


text \<open>
  The arguments passed to a parameterized message: \<^verbatim>\<open>frames.length\<close> (a number) or
  \<^verbatim>\<open>e.message\<close> (a string).
\<close>

datatype arg = ANum int | AStr jstring

text \<open>An entry of the translation table is a string or a function of the arguments.\<close>

datatype entry = Plain jstring | Template "arg list \<Rightarrow> jstring"

text \<open>
  The table itself (\<^verbatim>\<open>./translations\<close>) is a parameter. Message keys are
  \<^verbatim>\<open>keyof typeof translations.en\<close>, so the English table has an entry for every key; the
  Arabic table may lack one (\<open>None\<close> is JavaScript's \<^verbatim>\<open>undefined\<close>).
\<close>

record Translations =
  en :: "string \<Rightarrow> entry"
  ar :: "string \<Rightarrow> entry option"

fun lookup :: "Translations \<Rightarrow> Language \<Rightarrow> string \<Rightarrow> entry option" where
  "lookup translations En key = Some (en translations key)"
| "lookup translations Ar key = ar translations key"

text \<open>Truthiness of a table entry: \<^verbatim>\<open>undefined\<close> and the empty string are falsy.\<close>

fun truthy :: "entry option \<Rightarrow> bool" where
  "truthy None = False"
| "truthy (Some (Plain s)) = (s \<noteq> [])"
| "truthy (Some (Template f)) = True"

text \<open>The \<^verbatim>\<open>typeof stringOrFn === 'function'\<close> branch of \<^verbatim>\<open>t\<close>.\<close>

fun render :: "entry \<Rightarrow> arg list \<Rightarrow> jstring" where
  "render (Template f) args = f args"
| "render (Plain s) args = s"

text \<open>
  The lookup \<^verbatim>\<open>t\<close> (lines 20-27):
  \<^verbatim>\<open>translations[language][key] || translations['en'][key]\<close>, then the call or the
  string itself. \<open>dir\<close> is line 29.
\<close>

definition t :: "Translations \<Rightarrow> Language \<Rightarrow> string \<Rightarrow> arg list \<Rightarrow> jstring" where
  "t translations language key args =
     (let stringOrFn =
        (case lookup translations language key of
           Some e \<Rightarrow> if truthy (Some e) then e else en translations key
         | None \<Rightarrow> en translations key)
      in render stringOrFn args)"


text \<open>
  A table used to evaluate the lookup on concrete input. The entry \<open>frames\<close> is a function
  of the arguments in English and is missing in Arabic; \<open>status\<close> is a function in Arabic;
  \<open>title\<close> is the empty string in Arabic.
\<close>

fun tally :: "arg list \<Rightarrow> jstring" where
  "tally (ANum n # rest) = 0x23 # replicate (nat n) 0x7C"
| "tally rest = [0x23]"

fun quoted :: "arg list \<Rightarrow> jstring" where
  "quoted (AStr s # rest) = 0x3A # s"
| "quoted rest = [0x3A]"

definition sampleEn :: "string \<Rightarrow> entry" where
  "sampleEn key =
     (if key = ''greeting'' then Plain [0x48, 0x69]
      else if key = ''frames'' then Template tally
      else if key = ''title'' then Plain [0x54]
      else Plain [0x3F])"

definition sampleAr :: "string \<Rightarrow> entry option" where
  "sampleAr key =
     (if key = ''greeting'' then Some (Plain [0x0645])
      else if key = ''status'' then Some (Template quoted)
      else if key = ''title'' then Some (Plain [])
      else None)"

definition sampleTable :: Translations where
  "sampleTable = \<lparr>en = sampleEn, ar = sampleAr\<rparr>"

section \<open>Outcomes of awaited calls\<close>

text \<open>
  A remote call either rejects with an error whose \<^verbatim>\<open>message\<close> is given (the empty
  string also stands for a missing message: both are falsy) or resolves with a payload.
\<close>

datatype 'a settled = Rejected jstring | Resolved 'a

section \<open>The video analysis component (src/LanguageContext.tsx, lines 45-284)\<close>

text \<open>
  The hidden video element and canvas, as far as \<^verbatim>\<open>extractFrames\<close> reads them. The
  browser's behaviour is a parameter: \<open>seek v x\<close> is the position \<^verbatim>\<open>video.currentTime\<close>
  reports in the \<^verbatim>\<open>seeked\<close> event after \<open>x\<close> was assigned to it, \<open>context2d\<close> tells
  whether \<^verbatim>\<open>canvas.getContext('2d')\<close> is non-null, and \<open>toBlob v p\<close> is the encoded frame
  (\<^verbatim>\<open>canvas.toBlob\<close>, then \<^verbatim>\<open>blobToBase64\<close>) drawn at position \<open>p\<close>, \<open>None\<close> when the
  blob is null. Times are in seconds and are rational numbers: JavaScript's numbers
  without rounding, the infinite duration of a stream left out.
\<close>

record 'f HTMLVideoElement =
  duration :: rat
  seek :: "rat \<Rightarrow> rat"
  context2d :: bool
  toBlob :: "rat \<Rightarrow> 'f option"

text \<open>
  The \<^verbatim>\<open>seeked\<close> listener of \<^verbatim>\<open>extractFrames\<close> (lines 99-128), called with the position of the seek that
  has just completed and the frames pushed so far. The promise may never resolve, so
  not resolving is the value \<open>None\<close>.
\<close>

partial_function (option) onSeeked ::
  "'f HTMLVideoElement \<Rightarrow> rat \<Rightarrow> 'f list \<Rightarrow> 'f list option" where
  "onSeeked video currentTime frames =
     (if \<not> context2d video then Some []
      else
        let frames' = (case toBlob video currentTime of
                         Some base64 \<Rightarrow> frames @ [base64]
                       | None \<Rightarrow> frames)
        in if currentTime < duration video
           then onSeeked video (seek video (currentTime + 1)) frames'
           else Some frames')"

declare onSeeked.simps [code]

definition extractFrames :: "'f HTMLVideoElement \<Rightarrow> 'f list option" where
  "extractFrames video = onSeeked video (seek video 0) []"

text \<open>
  The seek of an HTML media element moves to the requested time, clamped to the media's
  time range.
\<close>

definition htmlSeek :: "rat \<Rightarrow> rat \<Rightarrow> rat" where
  "htmlSeek d x = max 0 (min x d)"

text \<open>A decodable video of the given duration whose frame at position \<open>p\<close> is \<open>p\<close>.\<close>

definition clip :: "rat \<Rightarrow> rat HTMLVideoElement" where
  "clip d = \<lparr>duration = d, seek = htmlSeek d, context2d = True, toBlob = Some\<rparr>"

text \<open>The same video on an element that reports the requested time unclamped.\<close>

definition unclampedClip :: "rat \<Rightarrow> rat HTMLVideoElement" where
  "unclampedClip d = \<lparr>duration = d, seek = id, context2d = True, toBlob = Some\<rparr>"

text \<open>
  The component's state: the React state, the refs and the input it reads, and the
  requests sent to the remote model (\<^verbatim>\<open>ai.models.generateContent\<close>: the prompt and the
  frames), in order.
\<close>

record 'f VideoAnalysis =
  videoFile :: bool
  videoUrl :: bool
  videoRef :: bool
  canvasRef :: bool
  prompt :: jstring
  analysis :: jstring
  va_isLoading :: bool
  va_error :: "jstring option"
  progress :: jstring
  onloadeddata_set :: bool
  va_requests :: "(jstring \<times> 'f list) list"

text \<open>
  \<^verbatim>\<open>handleAnalyze\<close> (lines 130-142) up to the point where it installs the \<^verbatim>\<open>onloadeddata\<close> handler.
  \<open>videoFile\<close>, \<open>videoUrl\<close>, \<open>videoRef\<close> and \<open>canvasRef\<close> tell whether the value is truthy.
\<close>

definition handleAnalyze ::
  "Translations \<Rightarrow> Language \<Rightarrow> 'f VideoAnalysis \<Rightarrow> 'f VideoAnalysis" where
  "handleAnalyze translations language st =
     (if \<not> videoFile st \<or> trim (prompt st) = [] \<or> \<not> videoRef st \<or> \<not> canvasRef st
         \<or> \<not> videoUrl st
      then st\<lparr>va_error := Some (t translations language ''video_error_no_file_prompt'' [])\<rparr>
      else st\<lparr>va_isLoading := True, va_error := None, analysis := [],
               progress := t translations language ''video_progress_preparing'' [],
               onloadeddata_set := True\<rparr>)"

text \<open>The \<^verbatim>\<open>catch\<close> and \<^verbatim>\<open>finally\<close> blocks of the handler.\<close>

definition va_catch ::
  "Translations \<Rightarrow> Language \<Rightarrow> jstring \<Rightarrow> 'f VideoAnalysis \<Rightarrow> 'f VideoAnalysis" where
  "va_catch translations language message st =
     st\<lparr>va_error := Some (if message \<noteq> [] then message
                            else t translations language ''video_error_unknown'' [])\<rparr>"

definition va_finally :: "'f VideoAnalysis \<Rightarrow> 'f VideoAnalysis" where
  "va_finally st = st\<lparr>va_isLoading := False, progress := []\<rparr>"

text \<open>
  The \<^verbatim>\<open>onloadeddata\<close> handler installed by \<^verbatim>\<open>handleAnalyze\<close> (lines 143-177), taken
  from the moment the browser calls it. \<open>generateContent\<close> is the
  remote model's answer to a request. The result is \<open>None\<close> when the handler never gets
  past \<^verbatim>\<open>await extractFrames\<close>.
\<close>

definition onloadeddata ::
  "Translations \<Rightarrow> Language \<Rightarrow> 'f HTMLVideoElement
     \<Rightarrow> (jstring \<times> 'f list \<Rightarrow> jstring settled)
     \<Rightarrow> 'f VideoAnalysis \<Rightarrow> 'f VideoAnalysis option" where
  "onloadeddata translations language video generateContent st =
     (let st1 = st\<lparr>progress := t translations language ''video_progress_extracting'' []\<rparr>
      in case extractFrames video of
           None \<Rightarrow> None
         | Some frames \<Rightarrow>
             if length frames = 0
             then Some (va_finally (va_catch translations language
                          (t translations language ''video_error_no_frames'' []) st1))
             else
               let st2 = st1\<lparr>progress := t translations language ''video_progress_sending''
                                            [ANum (int (length frames))]\<rparr>;
                   st3 = st2\<lparr>va_requests := va_requests st2 @ [(prompt st, frames)]\<rparr>
               in case generateContent (prompt st, frames) of
                    Rejected message \<Rightarrow>
                      Some (va_finally (va_catch translations language message st3))
                  | Resolved response \<Rightarrow>
                      Some (va_finally (st3\<lparr>analysis := response\<rparr>)))"

section \<open>The speech synthesis component (src/LanguageContext.tsx, lines 284-468)\<close>

text \<open>Truthiness of an optional string: \<^verbatim>\<open>undefined\<close> and the empty string are falsy.\<close>

fun truthyString :: "jstring option \<Rightarrow> bool" where
  "truthyString None = False"
| "truthyString (Some s) = (s \<noteq> [])"

text \<open>
  An \<^verbatim>\<open>AudioBuffer\<close>: the samples of channel 0 and the sample rate, a whole number of
  samples per second that fits 32 bits (24000 in this component). The type of a sample
  is left open.
\<close>

record 's AudioBuffer =
  channelData :: "'s list"
  sampleRate :: "32 word"

text \<open>
  The component's state. \<open>inputText\<close> is the React state \<^verbatim>\<open>text\<close>; \<open>audioContextRef\<close> tells
  whether a context that is not closed is held, \<open>audioSourceRef\<close> whether a playing
  source is held; \<open>tts_requests\<close> are the requests sent to the remote model (the text and
  the voice), in order.
\<close>

record 's TextToSpeech =
  inputText :: jstring
  selectedVoice :: jstring
  tts_isLoading :: bool
  isPlaying :: bool
  tts_error :: "jstring option"
  audioContextRef :: bool
  audioSourceRef :: bool
  audioBufferRef :: "'s AudioBuffer option"
  tts_requests :: "(jstring \<times> jstring) list"

definition stopPlayback :: "'s TextToSpeech \<Rightarrow> 's TextToSpeech" where
  "stopPlayback st = st\<lparr>audioSourceRef := False, isPlaying := False\<rparr>"

definition tts_catch ::
  "Translations \<Rightarrow> Language \<Rightarrow> jstring \<Rightarrow> 's TextToSpeech \<Rightarrow> 's TextToSpeech" where
  "tts_catch translations language message st =
     st\<lparr>tts_error := Some (if message \<noteq> [] then message
                             else t translations language ''tts_error_unknown'' [])\<rparr>"

text \<open>
  \<^verbatim>\<open>handleGenerateSpeech\<close> (lines 331-373). \<open>generateContent\<close> is the remote model's
  answer to a request (the base64 audio of the first part, \<open>None\<close> when the response has
  none), \<open>decodeAudio\<close> stands for \<^verbatim>\<open>decode\<close> followed by \<^verbatim>\<open>decodeAudioData\<close> of
  \<^verbatim>\<open>../utils\<close>.
\<close>

definition handleGenerateSpeech ::
  "Translations \<Rightarrow> Language \<Rightarrow> (jstring \<times> jstring \<Rightarrow> jstring option settled)
     \<Rightarrow> (jstring \<Rightarrow> 's AudioBuffer settled) \<Rightarrow> 's TextToSpeech \<Rightarrow> 's TextToSpeech" where
  "handleGenerateSpeech translations language generateContent decodeAudio st =
     (if trim (inputText st) = []
      then st\<lparr>tts_error := Some (t translations language ''tts_error_empty_text'' [])\<rparr>
      else
        let st1 = (stopPlayback st)\<lparr>tts_isLoading := True, tts_error := None,
                                    audioBufferRef := None\<rparr>;
            st2 = st1\<lparr>tts_requests := tts_requests st1 @ [(inputText st, selectedVoice st)]\<rparr>;
            st3 =
              (case generateContent (inputText st, selectedVoice st) of
                 Rejected message \<Rightarrow> tts_catch translations language message st2
               | Resolved base64Audio \<Rightarrow>
                   (case base64Audio of
                      Some b \<Rightarrow>
                        if b \<noteq> []
                        then (case decodeAudio b of
                                Rejected message \<Rightarrow>
                                  tts_catch translations language message
                                    (st2\<lparr>audioContextRef := True\<rparr>)
                              | Resolved buffer \<Rightarrow>
                                  st2\<lparr>audioContextRef := True, audioBufferRef := Some buffer\<rparr>)
                        else tts_catch translations language
                               (t translations language ''tts_error_no_audio'' []) st2
                    | None \<Rightarrow> tts_catch translations language
                               (t translations language ''tts_error_no_audio'' []) st2))
        in st3\<lparr>tts_isLoading := False\<rparr>)"

text \<open>
  \<^verbatim>\<open>handleDownloadAudio\<close> (lines 392-404): the file offered as \<^verbatim>\<open>speech.wav\<close>, \<open>None\<close>
  when there is no audio buffer. The encoder of \<^verbatim>\<open>../utils\<close> is a parameter.
\<close>

definition handleDownloadAudio ::
  "('s list \<Rightarrow> 32 word \<Rightarrow> 'w) \<Rightarrow> 's TextToSpeech \<Rightarrow> 'w option" where
  "handleDownloadAudio encoder st =
     (case audioBufferRef st of
        None \<Rightarrow> None
      | Some buffer \<Rightarrow> Some (encoder (channelData buffer) (sampleRate buffer)))"

section \<open>The conversation component (src/LanguageContext.tsx, lines 468-739)\<close>

datatype Author = User | Model

text \<open>An utterance of the transcript; \<open>utterance\<close> is the field \<^verbatim>\<open>text\<close>.\<close>

record Transcription =
  author :: Author
  utterance :: jstring

text \<open>
  A message of the live session, as far as \<^verbatim>\<open>onmessage\<close> reads it: the text of
  \<^verbatim>\<open>serverContent.inputTranscription\<close> and of \<^verbatim>\<open>serverContent.outputTranscription\<close>, the
  flags \<^verbatim>\<open>turnComplete\<close> and \<^verbatim>\<open>interrupted\<close>, and the base64 audio
  \<^verbatim>\<open>serverContent.modelTurn.parts[0].inlineData.data\<close>. \<open>None\<close> is a missing value.
\<close>

record LiveServerMessage =
  inputTranscription :: "jstring option"
  outputTranscription :: "jstring option"
  turnComplete :: bool
  modelTurnData :: "jstring option"
  interrupted :: bool

text \<open>A call \<^verbatim>\<open>source.start(startTime)\<close> on the node \<open>handle\<close> whose buffer lasts \<open>bufferDuration\<close>.\<close>

record Scheduled =
  handle :: nat
  startTime :: rat
  bufferDuration :: rat

text \<open>
  The refs and the state of the component. Source nodes are identified by the order of
  their creation: \<open>created\<close> counts the calls of \<^verbatim>\<open>createBufferSource\<close>, so the next node
  is \<open>created\<close>. \<open>started\<close> lists the calls of \<^verbatim>\<open>source.start\<close> in order, \<open>stopped\<close> holds
  the nodes on which \<^verbatim>\<open>source.stop\<close> was called. \<open>outputAudioContextRef\<close> tells whether the
  ref is non-null. Times are in seconds and are rational numbers: JavaScript's numbers
  without rounding.
\<close>

record Conversation =
  transcriptions :: "Transcription list"
  transcriptionsRef :: "Transcription list"
  lastAuthorRef :: "Author option"
  nextStartTimeRef :: rat
  audioSourcesRef :: "nat set"
  outputAudioContextRef :: bool
  created :: nat
  started :: "Scheduled list"
  stopped :: "nat set"

text \<open>The refs as the component initializes them.\<close>

definition initial :: Conversation where
  "initial = \<lparr>transcriptions = [], transcriptionsRef = [], lastAuthorRef = None,
              nextStartTimeRef = 0, audioSourcesRef = {}, outputAudioContextRef = False,
              created = 0, started = [], stopped = {}\<rparr>"

text \<open>
  \<^verbatim>\<open>startConversation\<close> (lines 549-561) up to the connection of the session; \<open>granted\<close> tells whether
  \<^verbatim>\<open>getUserMedia\<close> resolved.
\<close>

definition startConversation :: "bool \<Rightarrow> Conversation \<Rightarrow> Conversation" where
  "startConversation granted st =
     (let st1 = st\<lparr>transcriptions := [], transcriptionsRef := [], lastAuthorRef := None\<rparr>
      in if granted then st1\<lparr>outputAudioContextRef := True, nextStartTimeRef := 0\<rparr>
         else st1)"

text \<open>
  A handler either returns or throws; both leave the refs as they are at that point.
\<close>

datatype 'a outcome = Returned 'a | Thrown 'a

fun post :: "'a outcome \<Rightarrow> 'a" where
  "post (Returned s) = s"
| "post (Thrown s) = s"

fun andThen :: "'a outcome \<Rightarrow> ('a \<Rightarrow> 'a outcome) \<Rightarrow> 'a outcome" where
  "andThen (Returned s) f = f s"
| "andThen (Thrown s) f = Thrown s"

text \<open>
  One transcription block of \<^verbatim>\<open>onmessage\<close> (lines 594-604 for the user, 606-616 for the
  model). Reading \<^verbatim>\<open>.text\<close> of the last element of an empty array throws a TypeError.
\<close>

definition transcribe :: "Author \<Rightarrow> jstring option \<Rightarrow> Conversation \<Rightarrow> Conversation outcome" where
  "transcribe who fragment st =
     (case fragment of
        None \<Rightarrow> Returned st
      | Some text \<Rightarrow>
          if text = [] then Returned st
          else
            let st1 = (if lastAuthorRef st \<noteq> Some who
                       then st\<lparr>transcriptionsRef :=
                                  transcriptionsRef st @ [\<lparr>author = who, utterance = []\<rparr>],
                                lastAuthorRef := Some who\<rparr>
                       else st);
                n = length (transcriptionsRef st1)
            in if n = 0 then Thrown st1
               else Returned (st1\<lparr>transcriptionsRef :=
                      (transcriptionsRef st1)[n - 1 :=
                         (transcriptionsRef st1 ! (n - 1))
                           \<lparr>utterance := utterance (transcriptionsRef st1 ! (n - 1)) @ text\<rparr>]\<rparr>))"

text \<open>Lines 618-624: publishing the transcript and the turn-completion marker.\<close>

definition publish :: "LiveServerMessage \<Rightarrow> Conversation \<Rightarrow> Conversation" where
  "publish message st =
     (if truthyString (inputTranscription message) \<or> truthyString (outputTranscription message)
      then st\<lparr>transcriptions := transcriptionsRef st\<rparr> else st)"

definition turnCompleted :: "LiveServerMessage \<Rightarrow> Conversation \<Rightarrow> Conversation" where
  "turnCompleted message st =
     (if turnComplete message then st\<lparr>lastAuthorRef := None\<rparr> else st)"

text \<open>
  Lines 626-639: scheduling a chunk. \<open>decodedDuration\<close> is the duration of the buffer that
  \<^verbatim>\<open>decodeAudioData(decode(base64Audio), ...)\<close> of \<^verbatim>\<open>../utils\<close> yields, \<open>currentTime\<close> is the
  reading of the output context's clock.
\<close>

definition playAudio ::
  "(jstring \<Rightarrow> rat) \<Rightarrow> rat \<Rightarrow> LiveServerMessage \<Rightarrow> Conversation \<Rightarrow> Conversation" where
  "playAudio decodedDuration currentTime message st =
     (case modelTurnData message of
        None \<Rightarrow> st
      | Some base64Audio \<Rightarrow>
          if base64Audio \<noteq> [] \<and> outputAudioContextRef st
          then
            let source = created st;
                startTime' = max currentTime (nextStartTimeRef st)
            in st\<lparr>created := Suc (created st),
                  started := started st @
                    [\<lparr>handle = source, startTime = startTime',
                      bufferDuration = decodedDuration base64Audio\<rparr>],
                  nextStartTimeRef := startTime' + decodedDuration base64Audio,
                  audioSourcesRef := insert source (audioSourcesRef st)\<rparr>
          else st)"

text \<open>Lines 641-647: the interruption marker.\<close>

definition interrupt :: "LiveServerMessage \<Rightarrow> Conversation \<Rightarrow> Conversation" where
  "interrupt message st =
     (if interrupted message
      then st\<lparr>stopped := stopped st \<union> audioSourcesRef st, audioSourcesRef := {},
              nextStartTimeRef := 0\<rparr>
      else st)"

text \<open>
  The \<^verbatim>\<open>onmessage\<close> callback up to line 639, and the whole callback. The callback is
  taken to run to its end without another callback in between.
\<close>

definition transcribeAndPlay ::
  "(jstring \<Rightarrow> rat) \<Rightarrow> rat \<Rightarrow> LiveServerMessage \<Rightarrow> Conversation \<Rightarrow> Conversation outcome" where
  "transcribeAndPlay decodedDuration currentTime message st =
     andThen (transcribe User (inputTranscription message) st) (\<lambda>st1.
     andThen (transcribe Model (outputTranscription message) st1) (\<lambda>st2.
       Returned (playAudio decodedDuration currentTime message
                  (turnCompleted message (publish message st2)))))"

definition onmessage ::
  "(jstring \<Rightarrow> rat) \<Rightarrow> rat \<Rightarrow> LiveServerMessage \<Rightarrow> Conversation \<Rightarrow> Conversation outcome" where
  "onmessage decodedDuration currentTime message st =
     andThen (transcribeAndPlay decodedDuration currentTime message st) (\<lambda>st3.
       Returned (interrupt message st3))"

text \<open>
  The \<^verbatim>\<open>onended\<close> callback of a source (line 638):
  \<^verbatim>\<open>audioSourcesRef.current.delete(source)\<close>.
\<close>

definition onended :: "nat \<Rightarrow> Conversation \<Rightarrow> Conversation" where
  "onended source st = st\<lparr>audioSourcesRef := audioSourcesRef st - {source}\<rparr>"

text \<open>
  \<^verbatim>\<open>stopConversation\<close>, as far as it touches the playback refs (lines 527-532): every
  active source is stopped and the set is cleared.
\<close>

definition stopConversation :: "Conversation \<Rightarrow> Conversation" where
  "stopConversation st =
     st\<lparr>stopped := stopped st \<union> audioSourcesRef st, audioSourcesRef := {}\<rparr>"

text \<open>The callbacks that reach the playback sequencer, and a run of them in order.\<close>

datatype event = Message rat LiveServerMessage | Ended nat | Stop

fun step :: "(jstring \<Rightarrow> rat) \<Rightarrow> event \<Rightarrow> Conversation \<Rightarrow> Conversation" where
  "step decodedDuration (Message currentTime message) st =
     post (onmessage decodedDuration currentTime message st)"
| "step decodedDuration (Ended source) st = onended source st"
| "step decodedDuration Stop st = stopConversation st"

fun run :: "(jstring \<Rightarrow> rat) \<Rightarrow> event list \<Rightarrow> Conversation \<Rightarrow> Conversation" where
  "run decodedDuration [] st = st"
| "run decodedDuration (e # es) st = run decodedDuration es (step decodedDuration e st)"

text \<open>The states a run passes through, the first one included.\<close>

fun states :: "(jstring \<Rightarrow> rat) \<Rightarrow> event list \<Rightarrow> Conversation \<Rightarrow> Conversation list" where
  "states decodedDuration [] st = [st]"
| "states decodedDuration (e # es) st =
     st # states decodedDuration es (step decodedDuration e st)"

fun interrupts :: "event \<Rightarrow> bool" where
  "interrupts (Message currentTime message) = interrupted message"
| "interrupts (Ended source) = False"
| "interrupts Stop = False"

text \<open>
  The active set between the scheduling block and the interruption block of a message;
  the other callbacks have no scheduling block.
\<close>

fun held :: "(jstring \<Rightarrow> rat) \<Rightarrow> event \<Rightarrow> Conversation \<Rightarrow> nat set" where
  "held decodedDuration (Message currentTime message) st =
     audioSourcesRef (post (transcribeAndPlay decodedDuration currentTime message st))"
| "held decodedDuration (Ended source) st = audioSourcesRef st"
| "held decodedDuration Stop st = audioSourcesRef st"

text \<open>The sources an event adds to the active set and those it removes from it.\<close>

definition added :: "(jstring \<Rightarrow> rat) \<Rightarrow> event \<Rightarrow> Conversation \<Rightarrow> nat set" where
  "added decodedDuration e st = held decodedDuration e st - audioSourcesRef st"

definition removed :: "(jstring \<Rightarrow> rat) \<Rightarrow> event \<Rightarrow> Conversation \<Rightarrow> nat set" where
  "removed decodedDuration e st =
     held decodedDuration e st - audioSourcesRef (step decodedDuration e st)"

text \<open>How often a run adds a source to the active set, and how often it removes it.\<close>

fun additions :: "(jstring \<Rightarrow> rat) \<Rightarrow> nat \<Rightarrow> event list \<Rightarrow> Conversation \<Rightarrow> nat" where
  "additions decodedDuration source [] st = 0"
| "additions decodedDuration source (e # es) st =
     (if source \<in> added decodedDuration e st then 1 else 0)
       + additions decodedDuration source es (step decodedDuration e st)"

fun removals :: "(jstring \<Rightarrow> rat) \<Rightarrow> nat \<Rightarrow> event list \<Rightarrow> Conversation \<Rightarrow> nat" where
  "removals decodedDuration source [] st = 0"
| "removals decodedDuration source (e # es) st =
     (if source \<in> removed decodedDuration e st then 1 else 0)
       + removals decodedDuration source es (step decodedDuration e st)"

text \<open>
  Two chunks of the schedule follow each other without overlap: the later one starts no
  earlier than the earlier one starts and no earlier than the earlier one ends.
\<close>

definition backToBack :: "Scheduled \<Rightarrow> Scheduled \<Rightarrow> bool" where
  "backToBack a b \<longleftrightarrow>
     startTime a \<le> startTime b \<and> startTime a + bufferDuration a \<le> startTime b"

text \<open>
  The state the transcript assembler keeps between callbacks: a tracked speaker is the
  author of the last utterance.
\<close>

definition tracked :: "Conversation \<Rightarrow> bool" where
  "tracked st \<longleftrightarrow>
     (\<forall>who. lastAuthorRef st = Some who \<longrightarrow>
        transcriptionsRef st \<noteq> [] \<and> author (last (transcriptionsRef st)) = who)"

text \<open>Every active source is one that was created.\<close>

definition sourcesCreated :: "Conversation \<Rightarrow> bool" where
  "sourcesCreated st \<longleftrightarrow> (\<forall>source \<in> audioSourcesRef st. source < created st)"

section \<open>Concrete inputs\<close>

text \<open>Component states and collaborators used to evaluate the flows on concrete input.\<close>

definition blankText :: "rat TextToSpeech" where
  "blankText = \<lparr>inputText = [0x20, 0x09, 0x0A], selectedVoice = [0x5A], tts_isLoading = False,
     isPlaying = False, tts_error = None, audioContextRef = False, audioSourceRef = False,
     audioBufferRef = None, tts_requests = []\<rparr>"

definition blankPrompt :: "rat VideoAnalysis" where
  "blankPrompt = \<lparr>videoFile = True, videoUrl = True, videoRef = True, canvasRef = True,
     prompt = [0x20, 0x20], analysis = [], va_isLoading = False, va_error = None,
     progress = [], onloadeddata_set = False, va_requests = []\<rparr>"

definition silentModel :: "jstring \<times> jstring \<Rightarrow> jstring option settled" where
  "silentModel request = Resolved None"

definition failingDecoder :: "jstring \<Rightarrow> rat AudioBuffer settled" where
  "failingDecoder b = Rejected []"

text \<open>Messages that carry one item each.\<close>

definition emptyMessage :: LiveServerMessage where
  "emptyMessage = \<lparr>inputTranscription = None, outputTranscription = None,
     turnComplete = False, modelTurnData = None, interrupted = False\<rparr>"

definition chunk :: "jstring \<Rightarrow> LiveServerMessage" where
  "chunk base64Audio = emptyMessage\<lparr>modelTurnData := Some base64Audio\<rparr>"

definition interruption :: LiveServerMessage where
  "interruption = emptyMessage\<lparr>interrupted := True\<rparr>"




text \<open>A decoder under which a payload plays one second per code unit.\<close>

definition secondPerUnit :: "jstring \<Rightarrow> rat" where
  "secondPerUnit base64Audio = of_nat (length base64Audio)"

text \<open>A session that has just been started.\<close>

definition session :: Conversation where
  "session = startConversation True initial"

text \<open>A video element whose canvas has no 2D context.\<close>

definition blindCanvas :: "rat HTMLVideoElement" where
  "blindCanvas = \<lparr>duration = 2, seek = htmlSeek 2, context2d = False, toBlob = Some\<rparr>"

definition echoModel :: "jstring \<times> rat list \<Rightarrow> jstring settled" where
  "echoModel request = Resolved (fst request)"

definition loadingVideo :: "rat VideoAnalysis" where
  "loadingVideo = \<lparr>videoFile = True, videoUrl = True, videoRef = True, canvasRef = True,
     prompt = [0x48, 0x69], analysis = [], va_isLoading = True, va_error = None,
     progress = [0x2E], onloadeddata_set = True, va_requests = []\<rparr>"

text \<open>A session in which one chunk of three seconds was scheduled at clock reading 0.\<close>

definition playing :: Conversation where
  "playing = step secondPerUnit (Message 0 (chunk [0x41, 0x42, 0x43])) session"


text \<open>
  Two chunks arrive; the first one completes, the second one is interrupted; its
  \<^verbatim>\<open>onended\<close> callback and a late one of the first follow, then the session is stopped.
\<close>

definition twoChunks :: "event list" where
  "twoChunks = [Message 0 (chunk [0x41]), Message 0 (chunk [0x42]), Ended 0,
                Message 1 interruption, Ended 1, Ended 0, Stop]"

text \<open>A session in which two chunks were scheduled and neither has completed.\<close>

definition twoPlaying :: Conversation where
  "twoPlaying = run secondPerUnit [Message 0 (chunk [0x41]), Message 0 (chunk [0x42])] session"

section \<open>The waveform container\<close>

text \<open>
  Modelled from the spec: \<^verbatim>\<open>encodeWAV\<close> of \<^verbatim>\<open>../utils\<close> is not among the sources, and the
  repository has no decoder. The spec calls the file a standard uncompressed waveform
  container built from the raw sample buffer and its sample rate; this is the canonical
  RIFF/WAVE file with a 44-byte header, one channel and little-endian PCM samples. The
  spec names no sample width for the file; the model takes the 16-bit PCM it names for
  the capture side. The two helpers write a 16-bit and a 32-bit word as little-endian
  bytes.
\<close>

definition le16 :: "16 word \<Rightarrow> 8 word list" where
  "le16 w = [ucast w, ucast (drop_bit 8 w)]"

definition le32 :: "32 word \<Rightarrow> 8 word list" where
  "le32 w = [ucast w, ucast (drop_bit 8 w), ucast (drop_bit 16 w), ucast (drop_bit 24 w)]"

text \<open>Modelled from the spec: the four-character tags of the container, in ASCII.\<close>

definition tagRIFF :: "8 word list" where
  "tagRIFF = [0x52, 0x49, 0x46, 0x46]"

definition tagWAVE :: "8 word list" where
  "tagWAVE = [0x57, 0x41, 0x56, 0x45]"

definition tagFmt :: "8 word list" where
  "tagFmt = [0x66, 0x6D, 0x74, 0x20]"

definition tagData :: "8 word list" where
  "tagData = [0x64, 0x61, 0x74, 0x61]"

text \<open>
  Modelled from the spec: the encoder. The header holds the RIFF size, the format chunk
  (PCM, one channel, the sample rate, the byte rate, two bytes per frame, 16 bits per
  sample) and the size of the data chunk; the samples follow. The size fields are 32
  bits wide and wrap around.
\<close>

definition encodeWAV :: "16 word list \<Rightarrow> 32 word \<Rightarrow> 8 word list" where
  "encodeWAV samples rate =
     (let dataSize = (of_nat (2 * length samples) :: 32 word)
      in tagRIFF @ le32 (36 + dataSize) @ tagWAVE
         @ tagFmt @ le32 16 @ le16 1 @ le16 1 @ le32 rate @ le32 (rate * 2) @ le16 2 @ le16 16
         @ tagData @ le32 dataSize
         @ concat (map le16 samples))"

text \<open>
  Modelled from the spec: the decoder the round trip of the spec speaks of. It reads
  little-endian fields, checks the tags, the format fields and the size of the data
  chunk against the bytes that follow the header, and reads those bytes as samples.
\<close>

definition from_le16 :: "8 word \<Rightarrow> 8 word \<Rightarrow> 16 word" where
  "from_le16 b0 b1 = ucast b0 OR push_bit 8 (ucast b1)"

definition from_le32 :: "8 word \<Rightarrow> 8 word \<Rightarrow> 8 word \<Rightarrow> 8 word \<Rightarrow> 32 word" where
  "from_le32 b0 b1 b2 b3 =
     ucast b0 OR push_bit 8 (ucast b1) OR push_bit 16 (ucast b2) OR push_bit 24 (ucast b3)"

definition field16 :: "8 word list \<Rightarrow> nat \<Rightarrow> 16 word" where
  "field16 bytes i = from_le16 (bytes ! i) (bytes ! (i + 1))"

definition field32 :: "8 word list \<Rightarrow> nat \<Rightarrow> 32 word" where
  "field32 bytes i = from_le32 (bytes ! i) (bytes ! (i + 1)) (bytes ! (i + 2)) (bytes ! (i + 3))"

fun samplesOf :: "8 word list \<Rightarrow> 16 word list option" where
  "samplesOf [] = Some []"
| "samplesOf [b0] = None"
| "samplesOf (b0 # b1 # rest) = map_option ((#) (from_le16 b0 b1)) (samplesOf rest)"

definition decodeWAV :: "8 word list \<Rightarrow> (16 word list \<times> 32 word) option" where
  "decodeWAV bytes =
     (if length bytes < 44 then None
      else if take 4 bytes \<noteq> tagRIFF \<or> take 4 (drop 8 bytes) \<noteq> tagWAVE
              \<or> take 4 (drop 12 bytes) \<noteq> tagFmt \<or> take 4 (drop 36 bytes) \<noteq> tagData then None
      else if field32 bytes 16 \<noteq> 16 \<or> field16 bytes 20 \<noteq> 1 \<or> field16 bytes 22 \<noteq> 1
              \<or> field16 bytes 34 \<noteq> 16 then None
      else if field32 bytes 40 \<noteq> of_nat (length bytes - 44) then None
      else map_option (\<lambda>samples. (samples, field32 bytes 24)) (samplesOf (drop 44 bytes)))"

text \<open>A synthesis component that holds three samples at 24 kHz.\<close>

definition spoken :: "16 word TextToSpeech" where
  "spoken = \<lparr>inputText = [0x48, 0x69], selectedVoice = [0x5A], tts_isLoading = False,
     isPlaying = False, tts_error = None, audioContextRef = True, audioSourceRef = False,
     audioBufferRef = Some \<lparr>channelData = [1, 0xFFFF, 0x8000], sampleRate = 24000\<rparr>,
     tts_requests = [([0x48, 0x69], [0x5A])]\<rparr>"

section \<open>Properties of the localization provider\<close>



section \<open>Properties of the frame sampler\<close>

text \<open>
  C3, as the spec states it: for a video of 3.4 seconds the sampling loop returns exactly
  the four frames at 0, 1, 2 and 3. It does not: on an element that clamps seeks to the
  media's range the loop returns five frames.
\<close>

theorem sampling_3_4_seconds_not_four_frames:
  "extractFrames (clip (17 / 5)) \<noteq> Some [0, 1, 2, 3]
   \<and> map_option length (extractFrames (clip (17 / 5))) = Some 5"
  by (simp add: extractFrames_def clip_def htmlSeek_def onSeeked.simps)

text \<open>
  C3, amended: for a video of 3.4 seconds whose seeks to 0, 1, 2 and 3 land on the
  requested time and whose seek to 4 does not land before the end, the sampling loop
  resolves with exactly five frames: those at 0, 1, 2, 3 and the frame at the position
  reached by the seek to 4, which is appended before the position is compared with the
  duration.
\<close>

theorem sampling_3_4_seconds_five_frames:
  assumes "duration video = 17 / 5" and "context2d video"
    and "\<forall>p. toBlob video p = Some (frame p)"
    and "seek video 0 = 0" and "seek video 1 = 1" and "seek video 2 = 2"
    and "seek video 3 = 3" and "\<not> seek video 4 < 17 / 5"
  shows "extractFrames video
           = Some [frame 0, frame 1, frame 2, frame 3, frame (seek video 4)]"
  using assms by (simp add: extractFrames_def onSeeked.simps)

theorem sampling_3_4_seconds_five_frames_witness:
  "extractFrames (clip (17 / 5)) = Some [0, 1, 2, 3, 17 / 5]
   \<and> extractFrames (unclampedClip (17 / 5)) = Some [0, 1, 2, 3, 4]"
proof -
  have "extractFrames (clip (17 / 5))
          = Some [id 0, id 1, id 2, id 3, id (seek (clip (17 / 5)) 4)]"
    by (rule sampling_3_4_seconds_five_frames) (simp_all add: clip_def htmlSeek_def)
  moreover have "extractFrames (unclampedClip (17 / 5))
          = Some [id 0, id 1, id 2, id 3, id (seek (unclampedClip (17 / 5)) 4)]"
    by (rule sampling_3_4_seconds_five_frames) (simp_all add: unclampedClip_def)
  ultimately show ?thesis
    by (simp add: clip_def htmlSeek_def unclampedClip_def)
qed

section \<open>Properties of the synthesis and analysis flows\<close>

lemma all_dropWhile_iff: "(\<forall>x\<in>set (dropWhile P s). P x) \<longleftrightarrow> (\<forall>x\<in>set s. P x)"
proof
  assume rest: "\<forall>x\<in>set (dropWhile P s). P x"
  have "dropWhile P s = []"
  proof (cases "dropWhile P s")
    case Nil
    then show ?thesis .
  next
    case (Cons y ys)
    then have "\<not> P y"
      using hd_dropWhile [of P s] by simp
    with rest Cons show ?thesis by simp
  qed
  then show "\<forall>x\<in>set s. P x"
    by (simp add: dropWhile_eq_Nil_conv)
next
  assume "\<forall>x\<in>set s. P x"
  then show "\<forall>x\<in>set (dropWhile P s). P x"
    by (meson set_dropWhileD)
qed

lemma trim_empty_iff: "trim s = [] \<longleftrightarrow> (\<forall>c\<in>set s. isWhiteSpace c)"
  by (simp add: trim_def dropWhile_eq_Nil_conv all_dropWhile_iff)

text \<open>
  C7: when the text (for \<open>handleGenerateSpeech\<close>) or the prompt (for \<open>handleAnalyze\<close>) is
  empty or holds only whitespace, the handler sets the validation error and changes
  nothing else: no request is sent to the remote model, and \<open>handleAnalyze\<close> does not
  install the handler that would send one.
\<close>

theorem blank_input_rejected_before_remote_call:
  "((\<forall>c\<in>set (inputText ts). isWhiteSpace c) \<longrightarrow>
      handleGenerateSpeech translations language generateSpeech decodeAudio ts
        = ts\<lparr>tts_error := Some (t translations language ''tts_error_empty_text'' [])\<rparr>
      \<and> tts_requests (handleGenerateSpeech translations language generateSpeech decodeAudio ts)
        = tts_requests ts)
   \<and> ((\<forall>c\<in>set (prompt vs). isWhiteSpace c) \<longrightarrow>
      handleAnalyze translations language vs
        = vs\<lparr>va_error := Some (t translations language ''video_error_no_file_prompt'' [])\<rparr>
      \<and> va_requests (handleAnalyze translations language vs) = va_requests vs
      \<and> onloadeddata_set (handleAnalyze translations language vs) = onloadeddata_set vs)"
  by (simp add: handleGenerateSpeech_def handleAnalyze_def trim_empty_iff)

theorem blank_input_rejected_witness:
  "tts_error (handleGenerateSpeech sampleTable En silentModel failingDecoder blankText) = Some [0x3F]
   \<and> tts_requests (handleGenerateSpeech sampleTable En silentModel failingDecoder blankText) = []
   \<and> va_error (handleAnalyze sampleTable En blankPrompt) = Some [0x3F]
   \<and> va_requests (handleAnalyze sampleTable En blankPrompt) = []
   \<and> \<not> onloadeddata_set (handleAnalyze sampleTable En blankPrompt)"
proof -
  have a: "\<forall>c\<in>set (inputText blankText). isWhiteSpace c"
    by (simp add: blankText_def isWhiteSpace_def)
  have b: "\<forall>c\<in>set (prompt blankPrompt). isWhiteSpace c"
    by (simp add: blankPrompt_def isWhiteSpace_def)
  from blank_input_rejected_before_remote_call
         [of blankText sampleTable En silentModel failingDecoder blankPrompt] a b
  show ?thesis
    by (simp add: blankText_def blankPrompt_def t_def sampleTable_def sampleEn_def)
qed

text \<open>
  When extraction resolves with no frame: without a 2D context it always does, and with
  one only if the frame of the first seek could not be encoded. A video whose first
  seek already reaches the end gives the one frame of that seek.
\<close>

lemma no_context_no_frames: "\<not> context2d video \<Longrightarrow> extractFrames video = Some []"
  by (simp add: extractFrames_def onSeeked.simps)

lemma onSeeked_empty:
  assumes "onSeeked video p acc = Some r"
  shows "context2d video \<longrightarrow> r = [] \<longrightarrow> acc = [] \<and> toBlob video p = None"
  by (rule onSeeked.raw_induct
      [where P = "\<lambda>v p a r. context2d v \<longrightarrow> r = [] \<longrightarrow> a = [] \<and> toBlob v p = None",
        OF _ assms])
    (auto simp: Let_def split: if_splits option.splits)

lemma extractFrames_empty:
  assumes "extractFrames video = Some []"
  shows "toBlob video (seek video 0) = None \<or> \<not> context2d video"
  using assms onSeeked_empty [of video "seek video 0" "[]" "[]"]
  by (auto simp: extractFrames_def)

lemma single_seek:
  assumes "context2d video" and "toBlob video (seek video 0) = Some frame"
    and "\<not> seek video 0 < duration video"
  shows "extractFrames video = Some [frame]"
  using assms by (simp add: extractFrames_def onSeeked.simps)

text \<open>
  C8, as the spec states it: a video of duration zero yields an empty sequence, which the
  caller treats as a hard error without a remote call. It does not: on a working canvas
  the video of duration zero yields the frame of the first seek, and the handler sends
  the request with that frame and sets no error.
\<close>

theorem zero_duration_video_is_analysed:
  "duration (clip 0) = 0
   \<and> extractFrames (clip 0) = Some [0]
   \<and> map_option va_requests (onloadeddata sampleTable En (clip 0) echoModel loadingVideo)
       = Some [([0x48, 0x69], [0])]
   \<and> map_option va_error (onloadeddata sampleTable En (clip 0) echoModel loadingVideo)
       = Some None"
  by (simp add: onloadeddata_def extractFrames_def onSeeked.simps clip_def htmlSeek_def
      va_finally_def echoModel_def loadingVideo_def)

text \<open>
  C8, amended: when frame extraction resolves with no frame, which it does whenever the
  canvas has no 2D context and otherwise only if the frame of the first seek could not
  be encoded, the handler of the analysis flow finishes with the error "no frames
  extracted" (the "unknown error" message when that message is empty), loading switched
  off and the progress text cleared; the requests sent to the remote model are
  unchanged, and the extraction is not tried again. A video of duration zero on a
  working canvas does not give an empty sequence: extraction resolves with the frame of
  the first seek, and the handler sends the request with that frame.
\<close>

theorem no_frames_is_terminal_error:
  "(extractFrames video = Some [] \<longrightarrow>
      onloadeddata translations language video generateContent st
        = Some (st\<lparr>va_isLoading := False, progress := [],
                    va_error := Some
                      (if t translations language ''video_error_no_frames'' [] \<noteq> []
                       then t translations language ''video_error_no_frames'' []
                       else t translations language ''video_error_unknown'' [])\<rparr>)
      \<and> (toBlob video (seek video 0) = None \<or> \<not> context2d video))
   \<and> (\<not> context2d video \<longrightarrow> extractFrames video = Some [])
   \<and> (duration video = 0 \<and> seek video 0 = 0 \<and> context2d video
        \<and> toBlob video 0 = Some frame \<longrightarrow>
      extractFrames video = Some [frame]
      \<and> (\<exists>st'. onloadeddata translations language video generateContent st = Some st'
            \<and> va_requests st' = va_requests st @ [(prompt st, [frame])]
            \<and> \<not> va_isLoading st'))"
proof (intro conjI impI)
  assume empty: "extractFrames video = Some []"
  then show "onloadeddata translations language video generateContent st
        = Some (st\<lparr>va_isLoading := False, progress := [],
                    va_error := Some
                      (if t translations language ''video_error_no_frames'' [] \<noteq> []
                       then t translations language ''video_error_no_frames'' []
                       else t translations language ''video_error_unknown'' [])\<rparr>)"
    by (simp add: onloadeddata_def va_catch_def va_finally_def)
  from empty show "toBlob video (seek video 0) = None \<or> \<not> context2d video"
    by (rule extractFrames_empty)
next
  assume "\<not> context2d video"
  then show "extractFrames video = Some []"
    by (rule no_context_no_frames)
next
  assume zero: "duration video = 0 \<and> seek video 0 = 0 \<and> context2d video
        \<and> toBlob video 0 = Some frame"
  then show one: "extractFrames video = Some [frame]"
    using single_seek [of video frame] by simp
  show "\<exists>st'. onloadeddata translations language video generateContent st = Some st'
            \<and> va_requests st' = va_requests st @ [(prompt st, [frame])]
            \<and> \<not> va_isLoading st'"
    by (cases "generateContent (prompt st, [frame])")
      (simp_all add: onloadeddata_def one va_catch_def va_finally_def)
qed

theorem no_frames_is_terminal_error_witness:
  "extractFrames blindCanvas = Some []
   \<and> onloadeddata sampleTable En blindCanvas echoModel loadingVideo
     = Some (loadingVideo\<lparr>va_isLoading := False, progress := [], va_error := Some [0x3F]\<rparr>)
   \<and> va_requests (loadingVideo\<lparr>va_isLoading := False, progress := [], va_error := Some [0x3F]\<rparr>) = []
   \<and> extractFrames (clip 0) = Some [0]
   \<and> map_option va_requests (onloadeddata sampleTable En (clip 0) echoModel loadingVideo)
       = Some [([0x48, 0x69], [0])]"
proof -
  have blind: "\<not> context2d blindCanvas"
    by (simp add: blindCanvas_def)
  from no_frames_is_terminal_error [of blindCanvas] blind
  have empty: "extractFrames blindCanvas = Some []"
    by blast
  from no_frames_is_terminal_error [of blindCanvas sampleTable En echoModel loadingVideo] empty
  have error: "onloadeddata sampleTable En blindCanvas echoModel loadingVideo
     = Some (loadingVideo\<lparr>va_isLoading := False, progress := [],
               va_error := Some
                 (if t sampleTable En ''video_error_no_frames'' [] \<noteq> []
                  then t sampleTable En ''video_error_no_frames'' []
                  else t sampleTable En ''video_error_unknown'' [])\<rparr>)"
    by blast
  have zero: "duration (clip 0) = 0 \<and> seek (clip 0) 0 = 0 \<and> context2d (clip 0)
        \<and> toBlob (clip 0) 0 = Some 0"
    by (simp add: clip_def htmlSeek_def)
  from no_frames_is_terminal_error [of "clip 0" sampleTable En echoModel loadingVideo 0] zero
  obtain st' where one: "extractFrames (clip 0) = Some [0]"
    and sent: "onloadeddata sampleTable En (clip 0) echoModel loadingVideo = Some st'"
      "va_requests st' = va_requests loadingVideo @ [(prompt loadingVideo, [0])]"
    by blast
  show ?thesis
    using empty error one sent
    by (simp add: t_def sampleTable_def sampleEn_def loadingVideo_def)
qed

section \<open>Properties of the playback sequencer\<close>

text \<open>The playback refs, which the transcript blocks leave alone.\<close>

lemma transcribe_playback:
  "nextStartTimeRef (post (transcribe who fragment st)) = nextStartTimeRef st"
  "audioSourcesRef (post (transcribe who fragment st)) = audioSourcesRef st"
  "outputAudioContextRef (post (transcribe who fragment st)) = outputAudioContextRef st"
  "created (post (transcribe who fragment st)) = created st"
  "started (post (transcribe who fragment st)) = started st"
  "stopped (post (transcribe who fragment st)) = stopped st"
  by (simp_all add: transcribe_def Let_def split: option.splits)

lemma tap_cases:
  obtains (thrown) st' where "transcribeAndPlay d c m st = Thrown st'"
      "nextStartTimeRef st' = nextStartTimeRef st" "audioSourcesRef st' = audioSourcesRef st"
      "outputAudioContextRef st' = outputAudioContextRef st" "created st' = created st"
      "started st' = started st" "stopped st' = stopped st"
  | (returned) st2 where "transcribeAndPlay d c m st = Returned (playAudio d c m st2)"
      "nextStartTimeRef st2 = nextStartTimeRef st" "audioSourcesRef st2 = audioSourcesRef st"
      "outputAudioContextRef st2 = outputAudioContextRef st" "created st2 = created st"
      "started st2 = started st" "stopped st2 = stopped st"
proof (cases "transcribe User (inputTranscription m) st")
  case (Thrown s1)
  then have "transcribeAndPlay d c m st = Thrown s1"
    by (simp add: transcribeAndPlay_def)
  moreover have "post (transcribe User (inputTranscription m) st) = s1"
    using Thrown by simp
  ultimately show ?thesis
    using transcribe_playback [of User "inputTranscription m" st] thrown by metis
next
  case (Returned s1)
  then have p1: "post (transcribe User (inputTranscription m) st) = s1" by simp
  show ?thesis
  proof (cases "transcribe Model (outputTranscription m) s1")
    case (Thrown s2)
    then have "transcribeAndPlay d c m st = Thrown s2"
      using Returned by (simp add: transcribeAndPlay_def)
    moreover have "post (transcribe Model (outputTranscription m) s1) = s2"
      using Thrown by simp
    ultimately show ?thesis
      using transcribe_playback [of User "inputTranscription m" st]
        transcribe_playback [of Model "outputTranscription m" s1] p1 thrown by metis
  next
    case inner: (Returned s2)
    then have p2: "post (transcribe Model (outputTranscription m) s1) = s2" by simp
    have "transcribeAndPlay d c m st
            = Returned (playAudio d c m (turnCompleted m (publish m s2)))"
      using Returned inner by (simp add: transcribeAndPlay_def)
    moreover have "nextStartTimeRef (turnCompleted m (publish m s2)) = nextStartTimeRef st"
      "audioSourcesRef (turnCompleted m (publish m s2)) = audioSourcesRef st"
      "outputAudioContextRef (turnCompleted m (publish m s2)) = outputAudioContextRef st"
      "created (turnCompleted m (publish m s2)) = created st"
      "started (turnCompleted m (publish m s2)) = started st"
      "stopped (turnCompleted m (publish m s2)) = stopped st"
      using transcribe_playback [of User "inputTranscription m" st]
        transcribe_playback [of Model "outputTranscription m" s1] p1 p2
      by (simp_all add: turnCompleted_def publish_def)
    ultimately show ?thesis
      using returned by blast
  qed
qed


lemma playAudio_cases:
  obtains (idle) "playAudio d c m st = st"
  | (scheduled) b where "modelTurnData m = Some b" "b \<noteq> []" "outputAudioContextRef st"
      "playAudio d c m st =
         st\<lparr>created := Suc (created st),
            started := started st @
              [\<lparr>handle = created st, startTime = max c (nextStartTimeRef st),
                bufferDuration = d b\<rparr>],
            nextStartTimeRef := max c (nextStartTimeRef st) + d b,
            audioSourcesRef := insert (created st) (audioSourcesRef st)\<rparr>"
proof (cases "modelTurnData m")
  case None
  then show ?thesis
    using idle by (simp add: playAudio_def)
next
  case (Some b)
  show ?thesis
  proof (cases "b \<noteq> [] \<and> outputAudioContextRef st")
    case True
    with Some show ?thesis
      using scheduled [of b] by (simp add: playAudio_def Let_def)
  next
    case False
    with Some have "playAudio d c m st = st"
      by (auto simp: playAudio_def)
    then show ?thesis
      by (rule idle)
  qed
qed

lemma step_message_cases:
  obtains (thrown) "nextStartTimeRef (step d (Message c m) st) = nextStartTimeRef st"
      "audioSourcesRef (step d (Message c m) st) = audioSourcesRef st"
      "outputAudioContextRef (step d (Message c m) st) = outputAudioContextRef st"
      "created (step d (Message c m) st) = created st"
      "started (step d (Message c m) st) = started st"
      "stopped (step d (Message c m) st) = stopped st"
      "audioSourcesRef (post (transcribeAndPlay d c m st)) = audioSourcesRef st"
  | (returned) st2 where "step d (Message c m) st = interrupt m (playAudio d c m st2)"
      "post (transcribeAndPlay d c m st) = playAudio d c m st2"
      "nextStartTimeRef st2 = nextStartTimeRef st" "audioSourcesRef st2 = audioSourcesRef st"
      "outputAudioContextRef st2 = outputAudioContextRef st" "created st2 = created st"
      "started st2 = started st" "stopped st2 = stopped st"
proof (cases d c m st rule: tap_cases)
  case (thrown st')
  then show ?thesis
    using that(1) by (simp add: onmessage_def)
next
  case (returned st2)
  then show ?thesis
    using that(2) [of st2] by (simp add: onmessage_def)
qed

lemma step_schedule:
  assumes nonneg: "\<forall>b. 0 \<le> d b" and quiet: "\<not> interrupts e"
  obtains new where "started (step d e st) = started st @ new" "length new \<le> 1"
    "\<forall>a\<in>set new. nextStartTimeRef st \<le> startTime a \<and> 0 \<le> bufferDuration a
        \<and> startTime a + bufferDuration a \<le> nextStartTimeRef (step d e st)"
    "nextStartTimeRef st \<le> nextStartTimeRef (step d e st)"
proof (cases e)
  case (Message c m)
  with quiet have calm: "\<not> interrupted m" by simp
  show ?thesis
  proof (cases d c m st rule: step_message_cases)
    case thrown
    then show ?thesis
      using that [of "[]"] Message by simp
  next
    case (returned st2)
    then have eq: "step d e st = playAudio d c m st2"
      using calm Message by (simp add: interrupt_def)
    show ?thesis
    proof (cases d c m st2 rule: playAudio_cases)
      case idle
      then show ?thesis
        using that [of "[]"] eq returned by simp
    next
      case (scheduled b)
      let ?a = "\<lparr>handle = created st, startTime = max c (nextStartTimeRef st),
                 bufferDuration = d b\<rparr>"
      have "started (step d e st) = started st @ [?a]"
        using eq scheduled returned by simp
      moreover have "nextStartTimeRef (step d e st) = max c (nextStartTimeRef st) + d b"
        using eq scheduled returned by simp
      moreover have "0 \<le> d b"
        using nonneg by simp
      ultimately show ?thesis
        using that [of "[?a]"] by (simp add: max_def)
    qed
  qed
next
  case (Ended h)
  then show ?thesis
    using that [of "[]"] by (simp add: onended_def)
next
  case Stop
  then show ?thesis
    using that [of "[]"] by (simp add: stopConversation_def)
qed

lemma run_schedule:
  assumes nonneg: "\<forall>b. 0 \<le> d b" and quiet: "\<forall>e\<in>set es. \<not> interrupts e"
  shows "\<exists>new. started (run d es st) = started st @ new \<and> successively backToBack new
           \<and> (\<forall>a\<in>set new. nextStartTimeRef st \<le> startTime a)
           \<and> nextStartTimeRef st \<le> nextStartTimeRef (run d es st)"
  using quiet
proof (induction es arbitrary: st)
  case Nil
  then show ?case by simp
next
  case (Cons e es)
  then have calm: "\<not> interrupts e" and rest: "\<forall>e\<in>set es. \<not> interrupts e"
    by simp_all
  from nonneg calm obtain new1 where
    s1: "started (step d e st) = started st @ new1" and
    l1: "length new1 \<le> 1" and
    b1: "\<forall>a\<in>set new1. nextStartTimeRef st \<le> startTime a \<and> 0 \<le> bufferDuration a
            \<and> startTime a + bufferDuration a \<le> nextStartTimeRef (step d e st)" and
    m1: "nextStartTimeRef st \<le> nextStartTimeRef (step d e st)"
    by (rule step_schedule)
  from Cons.IH [OF rest, of "step d e st"] obtain new2 where
    s2: "started (run d es (step d e st)) = started (step d e st) @ new2" and
    o2: "successively backToBack new2" and
    b2: "\<forall>a\<in>set new2. nextStartTimeRef (step d e st) \<le> startTime a" and
    m2: "nextStartTimeRef (step d e st) \<le> nextStartTimeRef (run d es (step d e st))"
    by blast
  have "successively backToBack (new1 @ new2)"
  proof (cases new1)
    case Nil
    with o2 show ?thesis by simp
  next
    case (Cons a rest1)
    with l1 have new1: "new1 = [a]" by simp
    show ?thesis
    proof (cases new2)
      case Nil
      with new1 show ?thesis by simp
    next
      case (Cons b rest2)
      have "backToBack a b"
        using b1 b2 new1 Cons by (auto simp: backToBack_def)
      with o2 new1 Cons show ?thesis by simp
    qed
  qed
  moreover have "\<forall>a\<in>set (new1 @ new2). nextStartTimeRef st \<le> startTime a"
    using b1 b2 m1 by auto
  moreover have "started (run d (e # es) st) = started st @ (new1 @ new2)"
    using s1 s2 by simp
  moreover have "nextStartTimeRef st \<le> nextStartTimeRef (run d (e # es) st)"
    using m1 m2 by simp
  ultimately show ?case by blast
qed

text \<open>
  C1: a chunk that is scheduled starts at the maximum of the clock reading and
  \<open>nextStartTimeRef\<close>, and \<open>nextStartTimeRef\<close> becomes that start plus the chunk's duration;
  so for every run of callbacks without an interruption, at arbitrary clock readings and
  with durations that are not negative, the chunks scheduled during the run are in
  arrival order with start times that do not decrease, and each chunk ends no later
  than the next one starts.
\<close>

theorem chunks_scheduled_back_to_back:
  "(\<forall>b. modelTurnData message = Some b \<and> b \<noteq> [] \<and> outputAudioContextRef st \<longrightarrow>
      started (playAudio decodedDuration currentTime message st)
        = started st @
            [\<lparr>handle = created st, startTime = max currentTime (nextStartTimeRef st),
              bufferDuration = decodedDuration b\<rparr>]
      \<and> nextStartTimeRef (playAudio decodedDuration currentTime message st)
        = max currentTime (nextStartTimeRef st) + decodedDuration b)
   \<and> ((\<forall>b. 0 \<le> decodedDuration b) \<and> (\<forall>e\<in>set es. \<not> interrupts e) \<longrightarrow>
      successively backToBack
        (drop (length (started st)) (started (run decodedDuration es st))))"
proof (intro conjI impI allI)
  fix b
  assume "modelTurnData message = Some b \<and> b \<noteq> [] \<and> outputAudioContextRef st"
  then show "started (playAudio decodedDuration currentTime message st)
        = started st @
            [\<lparr>handle = created st, startTime = max currentTime (nextStartTimeRef st),
              bufferDuration = decodedDuration b\<rparr>]"
    and "nextStartTimeRef (playAudio decodedDuration currentTime message st)
        = max currentTime (nextStartTimeRef st) + decodedDuration b"
    by (simp_all add: playAudio_def Let_def)
next
  assume "(\<forall>b. 0 \<le> decodedDuration b) \<and> (\<forall>e\<in>set es. \<not> interrupts e)"
  then obtain new where "started (run decodedDuration es st) = started st @ new"
    and "successively backToBack new"
    using run_schedule [of decodedDuration es st] by blast
  then show "successively backToBack
        (drop (length (started st)) (started (run decodedDuration es st)))"
    by simp
qed

theorem chunks_scheduled_back_to_back_witness:
  "started (playAudio secondPerUnit 5 (chunk [0x41, 0x42]) session)
     = [\<lparr>handle = 0, startTime = 5, bufferDuration = 2\<rparr>]
   \<and> nextStartTimeRef (playAudio secondPerUnit 5 (chunk [0x41, 0x42]) session) = 7
   \<and> successively backToBack
       (started (run secondPerUnit
          [Message 0 (chunk [0x41]), Message 5 (chunk [0x41, 0x42]), Message 6 (chunk [0x41])]
          session))
   \<and> map startTime
       (started (run secondPerUnit
          [Message 0 (chunk [0x41]), Message 5 (chunk [0x41, 0x42]), Message 6 (chunk [0x41])]
          session)) = [0, 5, 7]"
proof -
  let ?es = "[Message 0 (chunk [0x41]), Message 5 (chunk [0x41, 0x42]), Message 6 (chunk [0x41])]"
  have fresh: "started session = []" "created session = 0" "nextStartTimeRef session = 0"
    by (simp_all add: session_def startConversation_def initial_def)
  have one: "modelTurnData (chunk [0x41, 0x42]) = Some [0x41, 0x42] \<and> [0x41, 0x42 :: 16 word] \<noteq> []
      \<and> outputAudioContextRef session"
    by (simp add: chunk_def emptyMessage_def session_def startConversation_def initial_def)
  have all: "(\<forall>b. 0 \<le> secondPerUnit b) \<and> (\<forall>e\<in>set ?es. \<not> interrupts e)"
    by (simp add: secondPerUnit_def chunk_def emptyMessage_def)
  note main = chunks_scheduled_back_to_back
    [of "chunk [0x41, 0x42]" session secondPerUnit 5 ?es]
  from main one
  have "started (playAudio secondPerUnit 5 (chunk [0x41, 0x42]) session)
          = started session @
              [\<lparr>handle = created session, startTime = max 5 (nextStartTimeRef session),
                bufferDuration = secondPerUnit [0x41, 0x42]\<rparr>]
        \<and> nextStartTimeRef (playAudio secondPerUnit 5 (chunk [0x41, 0x42]) session)
          = max 5 (nextStartTimeRef session) + secondPerUnit [0x41, 0x42]"
    by blast
  moreover from main all
  have "successively backToBack
          (drop (length (started session)) (started (run secondPerUnit ?es session)))"
    by blast
  moreover have "map startTime (started (run secondPerUnit ?es session)) = [0, 5, 7]"
    by code_simp
  ultimately show ?thesis
    by (simp add: fresh secondPerUnit_def)
qed

lemma transcribe_tracked:
  assumes "tracked st"
  obtains st' where "transcribe who fragment st = Returned st'" "tracked st'"
proof (cases "truthyString fragment")
  case False
  then have "transcribe who fragment st = Returned st"
    by (cases fragment) (simp_all add: transcribe_def)
  with assms show ?thesis
    using that by simp
next
  case True
  then obtain words where frag: "fragment = Some words" "words \<noteq> []"
    by (cases fragment) simp_all
  define st1 where "st1 = (if lastAuthorRef st \<noteq> Some who
                       then st\<lparr>transcriptionsRef :=
                                  transcriptionsRef st @ [\<lparr>author = who, utterance = []\<rparr>],
                                lastAuthorRef := Some who\<rparr>
                       else st)"
  have st1: "transcriptionsRef st1 \<noteq> []" "lastAuthorRef st1 = Some who"
    "author (last (transcriptionsRef st1)) = who"
    using assms by (auto simp: st1_def tracked_def)
  define n where "n = length (transcriptionsRef st1)"
  define st' where "st' = st1\<lparr>transcriptionsRef :=
                      (transcriptionsRef st1)[n - 1 :=
                         (transcriptionsRef st1 ! (n - 1))
                           \<lparr>utterance := utterance (transcriptionsRef st1 ! (n - 1)) @ words\<rparr>]\<rparr>"
  have "n \<noteq> 0"
    using st1 by (simp add: n_def)
  then have "transcribe who fragment st = Returned st'"
    using frag st1(1)
    by (simp add: transcribe_def Let_def st1_def [symmetric] n_def [symmetric] st'_def)
  moreover have "tracked st'"
    using st1 \<open>n \<noteq> 0\<close>
    by (simp add: tracked_def st'_def n_def last_conv_nth last_list_update)
  ultimately show ?thesis
    using that by blast
qed

lemma tap_tracked:
  assumes "tracked st"
  obtains st2 where "transcribeAndPlay d c m st = Returned (playAudio d c m st2)" "tracked st2"
    "nextStartTimeRef st2 = nextStartTimeRef st" "audioSourcesRef st2 = audioSourcesRef st"
    "outputAudioContextRef st2 = outputAudioContextRef st" "created st2 = created st"
    "started st2 = started st" "stopped st2 = stopped st"
proof -
  from assms obtain s1 where s1: "transcribe User (inputTranscription m) st = Returned s1" "tracked s1"
    by (rule transcribe_tracked)
  from s1(2) obtain s2 where s2: "transcribe Model (outputTranscription m) s1 = Returned s2" "tracked s2"
    by (rule transcribe_tracked)
  let ?st2 = "turnCompleted m (publish m s2)"
  have "transcribeAndPlay d c m st = Returned (playAudio d c m ?st2)"
    using s1 s2 by (simp add: transcribeAndPlay_def)
  moreover have "tracked ?st2"
    using s2(2) by (simp add: tracked_def turnCompleted_def publish_def)
  moreover have "post (transcribe User (inputTranscription m) st) = s1"
    "post (transcribe Model (outputTranscription m) s1) = s2"
    using s1 s2 by simp_all
  then have "nextStartTimeRef ?st2 = nextStartTimeRef st" "audioSourcesRef ?st2 = audioSourcesRef st"
    "outputAudioContextRef ?st2 = outputAudioContextRef st" "created ?st2 = created st"
    "started ?st2 = started st" "stopped ?st2 = stopped st"
    using transcribe_playback [of User "inputTranscription m" st]
      transcribe_playback [of Model "outputTranscription m" s1]
    by (simp_all add: turnCompleted_def publish_def)
  ultimately show ?thesis
    using that by blast
qed

lemma playAudio_tracked: "tracked (playAudio d c m st) = tracked st"
  by (cases d c m st rule: playAudio_cases) (simp_all add: tracked_def)

lemma interrupt_tracked: "tracked (interrupt m st) = tracked st"
  by (simp add: interrupt_def tracked_def)

lemma playAudio_sources:
  "audioSourcesRef st \<subseteq> audioSourcesRef (playAudio d c m st)"
  by (cases d c m st rule: playAudio_cases) auto

text \<open>
  C2: in every state of the playback sequencer (with the transcript assembler in a state
  it can reach), a message that carries the interruption marker is processed to its end;
  it stops every source of the active set, the one the message itself scheduled
  included, leaves the set empty and sets \<open>nextStartTimeRef\<close> to zero. A chunk that
  arrives next at a clock reading that is not negative starts at that reading.
\<close>

theorem interrupt_clears_and_resets:
  assumes "tracked st" and "interrupted message"
  shows "\<exists>st'. onmessage decodedDuration currentTime message st = Returned st'
           \<and> audioSourcesRef st \<subseteq> stopped st'
           \<and> audioSourcesRef (post (transcribeAndPlay decodedDuration currentTime message st))
               \<subseteq> stopped st'
           \<and> audioSourcesRef st' = {} \<and> nextStartTimeRef st' = 0
           \<and> (\<forall>clock later b. 0 \<le> clock \<and> modelTurnData later = Some b \<and> b \<noteq> []
                  \<and> outputAudioContextRef st' \<longrightarrow>
                (\<exists>st''. onmessage decodedDuration clock later st' = Returned st''
                   \<and> started st'' = started st' @
                        [\<lparr>handle = created st', startTime = clock,
                          bufferDuration = decodedDuration b\<rparr>]))"
proof -
  from assms(1) obtain st2 where
    tap: "transcribeAndPlay decodedDuration currentTime message st
            = Returned (playAudio decodedDuration currentTime message st2)" and
    st2: "tracked st2" "audioSourcesRef st2 = audioSourcesRef st"
    by (rule tap_tracked)
  let ?mid = "playAudio decodedDuration currentTime message st2"
  let ?st' = "interrupt message ?mid"
  have ret: "onmessage decodedDuration currentTime message st = Returned ?st'"
    using tap by (simp add: onmessage_def)
  have cleared: "audioSourcesRef ?st' = {}" "nextStartTimeRef ?st' = 0"
    "stopped ?st' = stopped ?mid \<union> audioSourcesRef ?mid"
    using assms(2) by (simp_all add: interrupt_def)
  have "audioSourcesRef st \<subseteq> audioSourcesRef ?mid"
    using playAudio_sources [of st2 decodedDuration currentTime message] st2 by simp
  then have stops: "audioSourcesRef st \<subseteq> stopped ?st'"
    "audioSourcesRef (post (transcribeAndPlay decodedDuration currentTime message st))
       \<subseteq> stopped ?st'"
    using cleared tap by auto
  have after: "\<exists>st''. onmessage decodedDuration clock later ?st' = Returned st''
                   \<and> started st'' = started ?st' @
                        [\<lparr>handle = created ?st', startTime = clock,
                          bufferDuration = decodedDuration b\<rparr>]"
    if "0 \<le> clock" "modelTurnData later = Some b" "b \<noteq> []" "outputAudioContextRef ?st'"
    for clock later b
  proof -
    have "tracked ?st'"
      using st2(1) by (simp add: interrupt_tracked playAudio_tracked)
    then obtain s2 where
      tap': "transcribeAndPlay decodedDuration clock later ?st'
               = Returned (playAudio decodedDuration clock later s2)" and
      s2: "nextStartTimeRef s2 = nextStartTimeRef ?st'"
        "outputAudioContextRef s2 = outputAudioContextRef ?st'" "created s2 = created ?st'"
        "started s2 = started ?st'"
      by (rule tap_tracked)
    have "started (playAudio decodedDuration clock later s2)
            = started ?st' @ [\<lparr>handle = created ?st', startTime = clock,
                               bufferDuration = decodedDuration b\<rparr>]"
      using that s2 cleared(2) by (simp add: playAudio_def Let_def)
    moreover have "started (interrupt later (playAudio decodedDuration clock later s2))
            = started (playAudio decodedDuration clock later s2)"
      by (simp add: interrupt_def)
    ultimately show ?thesis
      using tap' by (simp add: onmessage_def)
  qed
  show ?thesis
    using ret cleared(1,2) stops after by blast
qed


theorem interrupt_clears_and_resets_witness:
  "audioSourcesRef playing = {0} \<and> nextStartTimeRef playing = 3
   \<and> audioSourcesRef (post (onmessage secondPerUnit 1 interruption playing)) = {}
   \<and> nextStartTimeRef (post (onmessage secondPerUnit 1 interruption playing)) = 0
   \<and> 0 \<in> stopped (post (onmessage secondPerUnit 1 interruption playing))
   \<and> map startTime (started (post (onmessage secondPerUnit 2 (chunk [0x41])
         (post (onmessage secondPerUnit 1 interruption playing))))) = [0, 2]"
proof -
  have before: "audioSourcesRef playing = {0}" "nextStartTimeRef playing = 3"
    "started playing = [\<lparr>handle = 0, startTime = 0, bufferDuration = 3\<rparr>]"
    by (simp_all add: playing_def onmessage_def transcribeAndPlay_def transcribe_def
        publish_def turnCompleted_def playAudio_def interrupt_def chunk_def emptyMessage_def
        session_def startConversation_def initial_def secondPerUnit_def)
  have "tracked playing"
    by (simp add: tracked_def playing_def onmessage_def transcribeAndPlay_def transcribe_def
        publish_def turnCompleted_def playAudio_def interrupt_def chunk_def emptyMessage_def
        session_def startConversation_def initial_def)
  moreover have "interrupted interruption"
    by (simp add: interruption_def emptyMessage_def)
  ultimately obtain st' where
    ret: "onmessage secondPerUnit 1 interruption playing = Returned st'" and
    stops: "audioSourcesRef playing \<subseteq> stopped st'" and
    cleared: "audioSourcesRef st' = {}" "nextStartTimeRef st' = 0" and
    after: "\<forall>clock later b. 0 \<le> clock \<and> modelTurnData later = Some b \<and> b \<noteq> []
                  \<and> outputAudioContextRef st' \<longrightarrow>
                (\<exists>st''. onmessage secondPerUnit clock later st' = Returned st''
                   \<and> started st'' = started st' @
                        [\<lparr>handle = created st', startTime = clock,
                          bufferDuration = secondPerUnit b\<rparr>])"
    using interrupt_clears_and_resets [of playing interruption secondPerUnit 1] by blast
  have st': "outputAudioContextRef st'" "started st' = started playing"
    using ret
    by (auto simp: onmessage_def transcribeAndPlay_def transcribe_def publish_def
        turnCompleted_def playAudio_def interrupt_def interruption_def emptyMessage_def
        playing_def chunk_def session_def startConversation_def initial_def)
  have "(0::rat) \<le> 2 \<and> modelTurnData (chunk [0x41]) = Some [0x41] \<and> [0x41 :: 16 word] \<noteq> []
          \<and> outputAudioContextRef st'"
    using st'(1) by (simp add: chunk_def emptyMessage_def)
  with after obtain st'' where
    "onmessage secondPerUnit 2 (chunk [0x41]) st' = Returned st''"
    "started st'' = started st' @
       [\<lparr>handle = created st', startTime = 2, bufferDuration = secondPerUnit [0x41]\<rparr>]"
    by blast
  then show ?thesis
    using ret stops cleared before st'(2) by simp
qed

lemma states_cursor:
  assumes nonneg: "\<forall>b. 0 \<le> d b" and quiet: "\<forall>e\<in>set es. \<not> interrupts e"
  shows "\<forall>s\<in>set (states d es st). nextStartTimeRef st \<le> nextStartTimeRef s"
  using quiet
proof (induction es arbitrary: st)
  case Nil
  then show ?case by simp
next
  case (Cons e es)
  then have calm: "\<not> interrupts e" and rest: "\<forall>e\<in>set es. \<not> interrupts e"
    by simp_all
  from nonneg calm obtain new where
    "nextStartTimeRef st \<le> nextStartTimeRef (step d e st)"
    by (rule step_schedule)
  with Cons.IH [OF rest, of "step d e st"] show ?case
    by auto
qed

lemma states_sorted:
  assumes nonneg: "\<forall>b. 0 \<le> d b" and quiet: "\<forall>e\<in>set es. \<not> interrupts e"
  shows "sorted (map nextStartTimeRef (states d es st))"
  using quiet
proof (induction es arbitrary: st)
  case Nil
  then show ?case by simp
next
  case (Cons e es)
  then have calm: "\<not> interrupts e" and rest: "\<forall>e\<in>set es. \<not> interrupts e"
    by simp_all
  from nonneg calm obtain new where
    up: "nextStartTimeRef st \<le> nextStartTimeRef (step d e st)"
    by (rule step_schedule)
  have "\<forall>s\<in>set (states d es (step d e st)). nextStartTimeRef st \<le> nextStartTimeRef s"
    using states_cursor [OF nonneg rest, of "step d e st"] up by auto
  with Cons.IH [OF rest, of "step d e st"] show ?case
    by simp
qed

text \<open>
  C5, as the spec states it: over every run of chunk arrivals, interruptions and
  completions \<open>nextStartTimeRef\<close> never moves backward. It does: an interruption after a
  scheduled chunk moves it from 1 back to 0.
\<close>

theorem cursor_moves_back_on_interrupt:
  "nextStartTimeRef (run secondPerUnit [Message 0 (chunk [0x41]), Message (1 / 2) interruption] session)
     < nextStartTimeRef (run secondPerUnit [Message 0 (chunk [0x41])] session)"
  by code_simp

text \<open>
  C5, amended: over every run of chunk arrivals, completions and session stops without
  an interruption, with durations that are not negative, \<open>nextStartTimeRef\<close> never moves
  backward; a message that carries the interruption marker sets it to zero.
\<close>

theorem cursor_monotone_between_interrupts:
  "((\<forall>b. 0 \<le> decodedDuration b) \<and> (\<forall>e\<in>set es. \<not> interrupts e) \<longrightarrow>
      sorted (map nextStartTimeRef (states decodedDuration es st)))
   \<and> (tracked st \<and> interrupted message \<longrightarrow>
      nextStartTimeRef (step decodedDuration (Message currentTime message) st) = 0)"
proof (intro conjI impI)
  assume "(\<forall>b. 0 \<le> decodedDuration b) \<and> (\<forall>e\<in>set es. \<not> interrupts e)"
  then show "sorted (map nextStartTimeRef (states decodedDuration es st))"
    using states_sorted by blast
next
  assume "tracked st \<and> interrupted message"
  then obtain st2 where
    "transcribeAndPlay decodedDuration currentTime message st
       = Returned (playAudio decodedDuration currentTime message st2)"
    and "interrupted message"
    using tap_tracked [of st decodedDuration currentTime message] by metis
  then show "nextStartTimeRef (step decodedDuration (Message currentTime message) st) = 0"
    by (simp add: onmessage_def interrupt_def)
qed

theorem cursor_monotone_between_interrupts_witness:
  "map nextStartTimeRef (states secondPerUnit
      [Message 0 (chunk [0x41]), Ended 0, Message 5 (chunk [0x41, 0x42]), Stop] session)
     = [0, 1, 1, 7, 7]
   \<and> sorted (map nextStartTimeRef (states secondPerUnit
      [Message 0 (chunk [0x41]), Ended 0, Message 5 (chunk [0x41, 0x42]), Stop] session))
   \<and> nextStartTimeRef playing = 3
   \<and> nextStartTimeRef (step secondPerUnit (Message 1 interruption) playing) = 0"
proof -
  let ?es = "[Message 0 (chunk [0x41]), Ended 0, Message 5 (chunk [0x41, 0x42]), Stop]"
  have quiet: "(\<forall>b. 0 \<le> secondPerUnit b) \<and> (\<forall>e\<in>set ?es. \<not> interrupts e)"
    by (simp add: secondPerUnit_def chunk_def emptyMessage_def)
  have "tracked playing"
    by (simp add: tracked_def playing_def onmessage_def transcribeAndPlay_def transcribe_def
        publish_def turnCompleted_def playAudio_def interrupt_def chunk_def emptyMessage_def
        session_def startConversation_def initial_def)
  then have marked: "tracked playing \<and> interrupted interruption"
    by (simp add: interruption_def emptyMessage_def)
  from cursor_monotone_between_interrupts [of secondPerUnit ?es session] quiet have "sorted (map nextStartTimeRef (states secondPerUnit ?es session))"
    by blast
  moreover from cursor_monotone_between_interrupts [of secondPerUnit "[]" playing interruption 1]
    marked
  have "nextStartTimeRef (step secondPerUnit (Message 1 interruption) playing) = 0"
    by blast
  moreover have "map nextStartTimeRef (states secondPerUnit ?es session) = [0, 1, 1, 7, 7]"
    by code_simp
  moreover have "nextStartTimeRef playing = 3"
    by code_simp
  ultimately show ?thesis
    by simp
qed

lemma message_bookkeeping:
  "(audioSourcesRef (step d (Message c m) st) = held d (Message c m) st
      \<or> interrupted m \<and> audioSourcesRef (step d (Message c m) st) = {})
   \<and> (held d (Message c m) st = audioSourcesRef st
        \<and> created (step d (Message c m) st) = created st
      \<or> held d (Message c m) st = insert (created st) (audioSourcesRef st)
        \<and> created (step d (Message c m) st) = Suc (created st))"
proof (cases d c m st rule: step_message_cases)
  case thrown
  then show ?thesis
    by (simp only: held.simps) simp
next
  case (returned st2)
  let ?mid = "playAudio d c m st2"
  have h: "held d (Message c m) st = audioSourcesRef ?mid"
    using returned(2) by (simp only: held.simps)
  have f: "audioSourcesRef (step d (Message c m) st)
             = (if interrupted m then {} else audioSourcesRef ?mid)"
    "created (step d (Message c m) st) = created ?mid"
    by (simp_all only: returned(1)) (simp_all add: interrupt_def)
  have mid: "audioSourcesRef ?mid = audioSourcesRef st \<and> created ?mid = created st
       \<or> audioSourcesRef ?mid = insert (created st) (audioSourcesRef st)
           \<and> created ?mid = Suc (created st)"
  proof (cases d c m st2 rule: playAudio_cases)
    case idle
    then show ?thesis
      using returned(4,6) by simp
  next
    case (scheduled b)
    then show ?thesis
      using returned(4,6) by simp
  qed
  show ?thesis
    unfolding h f using mid by (cases "interrupted m") simp_all
qed

lemma held_bookkeeping:
  "(audioSourcesRef (step d e st) = held d e st
      \<or> audioSourcesRef (step d e st) \<subseteq> held d e st
         \<and> ((\<exists>h. e = Ended h) \<or> e = Stop \<or> interrupts e))
   \<and> (held d e st = audioSourcesRef st \<and> created (step d e st) = created st
      \<or> held d e st = insert (created st) (audioSourcesRef st)
        \<and> created (step d e st) = Suc (created st))"
proof (cases e)
  case (Message c m)
  then show ?thesis
    using message_bookkeeping [of d c m st] by auto
next
  case (Ended h)
  then show ?thesis
    by (auto simp: onended_def)
next
  case Stop
  then show ?thesis
    by (simp add: stopConversation_def)
qed


lemma step_sourcesCreated:
  assumes "sourcesCreated st"
  shows "sourcesCreated (step d e st)" and "created st \<le> created (step d e st)"
    and "h \<in> added d e st \<Longrightarrow> h = created st \<and> h < created (step d e st)"
proof -
  note book = held_bookkeeping [of d e st]
  have sub: "audioSourcesRef (step d e st) \<subseteq> held d e st"
    using book by auto
  have fresh: "held d e st = audioSourcesRef st \<and> created (step d e st) = created st
      \<or> held d e st = insert (created st) (audioSourcesRef st)
        \<and> created (step d e st) = Suc (created st)"
    using book by simp
  show "created st \<le> created (step d e st)"
    using fresh by auto
  show "sourcesCreated (step d e st)"
    unfolding sourcesCreated_def
  proof
    fix x
    assume "x \<in> audioSourcesRef (step d e st)"
    with sub have "x \<in> held d e st" by auto
    with fresh assms show "x < created (step d e st)"
      by (auto simp: sourcesCreated_def less_Suc_eq)
  qed
  show "h = created st \<and> h < created (step d e st)" if "h \<in> added d e st"
    using that fresh by (auto simp: added_def)
qed

lemma step_balance:
  "(if h \<in> audioSourcesRef st then 1 else 0) + (if h \<in> added d e st then 1 else 0)
     = (if h \<in> removed d e st then 1 else 0)
         + (if h \<in> audioSourcesRef (step d e st) then 1 else (0::nat))"
proof -
  note book = held_bookkeeping [of d e st]
  have "audioSourcesRef (step d e st) \<subseteq> held d e st"
    using book by auto
  moreover have "audioSourcesRef st \<subseteq> held d e st"
    using book by auto
  ultimately show ?thesis
    by (auto simp: added_def removed_def)
qed

lemma run_balance:
  "(if h \<in> audioSourcesRef st then 1 else 0) + additions d h es st
     = removals d h es st + (if h \<in> audioSourcesRef (run d es st) then 1 else 0)"
proof (induction es arbitrary: st)
  case Nil
  then show ?case by simp
next
  case (Cons e es)
  have "(if h \<in> audioSourcesRef st then 1 else 0) + additions d h (e # es) st
      = (if h \<in> audioSourcesRef st then 1 else 0) + (if h \<in> added d e st then 1 else 0)
          + additions d h es (step d e st)"
    by simp
  also have "\<dots> = (if h \<in> removed d e st then 1 else 0)
          + ((if h \<in> audioSourcesRef (step d e st) then 1 else 0)
             + additions d h es (step d e st))"
    using step_balance [of h st d e] by linarith
  also have "\<dots> = (if h \<in> removed d e st then 1 else 0)
          + (removals d h es (step d e st)
             + (if h \<in> audioSourcesRef (run d es (step d e st)) then 1 else 0))"
    using Cons [of "step d e st"] by simp
  finally show ?case
    by simp
qed

lemma no_second_addition:
  assumes "sourcesCreated st" and "h < created st"
  shows "additions d h es st = 0"
  using assms
proof (induction es arbitrary: st)
  case Nil
  then show ?case by simp
next
  case (Cons e es)
  have "h \<notin> added d e st"
    using step_sourcesCreated(3) [OF Cons.prems(1), of h d e] Cons.prems(2) by auto
  moreover have "h < created (step d e st)"
    using step_sourcesCreated(2) [OF Cons.prems(1), of d e] Cons.prems(2) by linarith
  then have "additions d h es (step d e st) = 0"
    using Cons.IH [of "step d e st"] step_sourcesCreated(1) [OF Cons.prems(1), of d e] by simp
  ultimately show ?case by simp
qed

lemma at_most_one_addition:
  assumes "sourcesCreated st"
  shows "(if h \<in> audioSourcesRef st then 1 else 0) + additions d h es st \<le> 1"
  using assms
proof (induction es arbitrary: st)
  case Nil
  then show ?case by simp
next
  case (Cons e es)
  note next_ok = step_sourcesCreated(1) [OF Cons.prems, of d e]
  show ?case
  proof (cases "h \<in> added d e st")
    case True
    then have h: "h = created st" "h < created (step d e st)"
      using step_sourcesCreated(3) [OF Cons.prems, of h d e] by simp_all
    then have "h \<notin> audioSourcesRef st"
      using Cons.prems by (auto simp: sourcesCreated_def)
    moreover have "additions d h es (step d e st) = 0"
      using no_second_addition [OF next_ok h(2)] .
    ultimately show ?thesis
      using True by simp
  next
    case False
    show ?thesis
    proof (cases "h \<in> audioSourcesRef st")
      case True
      then have "h < created st"
        using Cons.prems by (simp add: sourcesCreated_def)
      then have "h < created (step d e st)"
        using step_sourcesCreated(2) [OF Cons.prems, of d e] by linarith
      then have "additions d h es (step d e st) = 0"
        using no_second_addition [OF next_ok] by simp
      with False True show ?thesis by simp
    next
      case out: False
      from Cons.IH [OF next_ok] have "additions d h es (step d e st) \<le> 1"
        by (simp split: if_splits)
      with False out show ?thesis by simp
    qed
  qed
qed

lemma removed_cases:
  assumes "source \<in> removed d e st"
  shows "e = Ended source \<or> e = Stop \<or> interrupts e"
proof (cases e)
  case (Message c m)
  then show ?thesis
    using assms message_bookkeeping [of d c m st] by (auto simp: removed_def)
next
  case (Ended h)
  then show ?thesis
    using assms by (auto simp: removed_def onended_def)
next
  case Stop
  then show ?thesis by simp
qed

lemma onended_removes_its_source:
  "removed d (Ended h) st = audioSourcesRef st \<inter> {h}"
  "audioSourcesRef (step d (Ended h) st) = audioSourcesRef st - {h}"
  by (auto simp: removed_def onended_def)

text \<open>
  C6: over every run of callbacks (messages, \<^verbatim>\<open>onended\<close> callbacks, session stops) from a
  state whose active sources were all created, a source is added to the active set at
  most once and removed from it at most once; it is removed exactly once precisely when
  it was in the set or was added to it and is no longer in the set at the end. A source
  is removed only by its own \<^verbatim>\<open>onended\<close> callback, by a session stop or by an
  interruption: the \<^verbatim>\<open>onended\<close> callback of a source removes that source if it is in the
  set and no other source. After the source's own \<^verbatim>\<open>onended\<close> callback, a session stop
  or an interruption the source is not in the set.
\<close>

theorem source_removed_once:
  assumes "sourcesCreated st"
  shows "additions decodedDuration source es st \<le> 1
    \<and> removals decodedDuration source es st \<le> 1
    \<and> (removals decodedDuration source es st = 1 \<longleftrightarrow>
         (source \<in> audioSourcesRef st \<or> additions decodedDuration source es st = 1)
         \<and> source \<notin> audioSourcesRef (run decodedDuration es st))
    \<and> (source \<in> removed decodedDuration e st \<longrightarrow>
         e = Ended source \<or> e = Stop \<or> interrupts e)
    \<and> removed decodedDuration (Ended other) st = audioSourcesRef st \<inter> {other}
    \<and> audioSourcesRef (step decodedDuration (Ended other) st) = audioSourcesRef st - {other}
    \<and> source \<notin> audioSourcesRef (step decodedDuration (Ended source) st)
    \<and> audioSourcesRef (step decodedDuration Stop st) = {}
    \<and> (tracked st \<and> interrupted message \<longrightarrow>
         audioSourcesRef (step decodedDuration (Message currentTime message) st) = {})"
proof -
  note bal = run_balance [of source st decodedDuration es]
  note one = at_most_one_addition [OF assms, of source decodedDuration es]
  have a: "additions decodedDuration source es st \<le> 1"
    using one by (simp split: if_splits)
  have b: "removals decodedDuration source es st \<le> 1"
    using bal one by (simp split: if_splits)
  have c: "removals decodedDuration source es st = 1 \<longleftrightarrow>
         (source \<in> audioSourcesRef st \<or> additions decodedDuration source es st = 1)
         \<and> source \<notin> audioSourcesRef (run decodedDuration es st)"
    using bal one by (simp split: if_splits)
  have d: "source \<in> removed decodedDuration e st \<longrightarrow>
         e = Ended source \<or> e = Stop \<or> interrupts e"
    using removed_cases [of source decodedDuration e st] by blast
  have e: "removed decodedDuration (Ended other) st = audioSourcesRef st \<inter> {other}"
    "audioSourcesRef (step decodedDuration (Ended other) st) = audioSourcesRef st - {other}"
    by (rule onended_removes_its_source)+
  have f: "source \<notin> audioSourcesRef (step decodedDuration (Ended source) st)"
    "audioSourcesRef (step decodedDuration Stop st) = {}"
    by (simp_all add: onended_def stopConversation_def)
  have g: "audioSourcesRef (step decodedDuration (Message currentTime message) st) = {}"
    if "tracked st \<and> interrupted message"
  proof -
    from that obtain st2 where
      "transcribeAndPlay decodedDuration currentTime message st
         = Returned (playAudio decodedDuration currentTime message st2)"
      using tap_tracked [of st decodedDuration currentTime message] by metis
    with that show ?thesis
      by (simp add: onmessage_def interrupt_def)
  qed
  from a b c d e f g show ?thesis
    by blast
qed

theorem source_removed_once_witness:
  "sourcesCreated session
   \<and> additions secondPerUnit 0 twoChunks session = 1
   \<and> removals secondPerUnit 0 twoChunks session = 1
   \<and> additions secondPerUnit 1 twoChunks session = 1
   \<and> removals secondPerUnit 1 twoChunks session = 1
   \<and> audioSourcesRef (run secondPerUnit twoChunks session) = {}
   \<and> audioSourcesRef twoPlaying = {0, 1}
   \<and> removed secondPerUnit (Ended 0) twoPlaying = {0}
   \<and> audioSourcesRef (step secondPerUnit (Ended 0) twoPlaying) = {1}
   \<and> 1 \<notin> removed secondPerUnit (Ended 0) twoPlaying"
proof -
  have created: "sourcesCreated session"
    by (simp add: sourcesCreated_def session_def startConversation_def initial_def)
  have add: "additions secondPerUnit 0 twoChunks session = 1"
    "additions secondPerUnit 1 twoChunks session = 1"
    by code_simp+
  have gone: "audioSourcesRef (run secondPerUnit twoChunks session) = {}"
    by code_simp
  have both: "audioSourcesRef twoPlaying = {0, 1}"
    by code_simp
  then have created': "sourcesCreated twoPlaying"
    by (simp add: sourcesCreated_def) code_simp
  from source_removed_once [OF created, of secondPerUnit 0 twoChunks] add(1) gone
  have "removals secondPerUnit 0 twoChunks session = 1"
    by simp
  moreover
  from source_removed_once [OF created, of secondPerUnit 1 twoChunks] add(2) gone
  have "removals secondPerUnit 1 twoChunks session = 1"
    by simp
  moreover
  from source_removed_once [OF created', of secondPerUnit 1 "[]" "Ended 0" 0]
  have "removed secondPerUnit (Ended 0) twoPlaying = audioSourcesRef twoPlaying \<inter> {0}"
    "audioSourcesRef (step secondPerUnit (Ended 0) twoPlaying) = audioSourcesRef twoPlaying - {0}"
    "1 \<in> removed secondPerUnit (Ended 0) twoPlaying \<longrightarrow>
       Ended 0 = Ended 1 \<or> Ended 0 = Stop \<or> interrupts (Ended 0)"
    by blast+
  ultimately show ?thesis
    using created add gone both by auto
qed

section \<open>States a session can reach\<close>

text \<open>
  The two conditions that properties of the sequencer and of the assembler assume of a
  state hold in a new session and after every run of callbacks from it, and a restart
  keeps them.
\<close>

lemma step_tracked:
  assumes "tracked st"
  shows "tracked (step d e st)"
proof (cases e)
  case (Message c m)
  from assms obtain st2 where
    "transcribeAndPlay d c m st = Returned (playAudio d c m st2)" "tracked st2"
    by (rule tap_tracked)
  then show ?thesis
    using Message by (simp add: onmessage_def interrupt_tracked playAudio_tracked)
next
  case (Ended h)
  with assms show ?thesis
    by (simp add: onended_def tracked_def)
next
  case Stop
  with assms show ?thesis
    by (simp add: stopConversation_def tracked_def)
qed

lemma session_invariants: "tracked session" "sourcesCreated session"
  by (simp_all add: tracked_def sourcesCreated_def session_def startConversation_def initial_def)

lemma run_invariants:
  assumes "tracked st" and "sourcesCreated st"
  shows "tracked (run d es st) \<and> sourcesCreated (run d es st)"
  using assms
proof (induction es arbitrary: st)
  case Nil
  then show ?case by simp
next
  case (Cons e es)
  then show ?case
    using step_tracked [of st d e] step_sourcesCreated(1) [of st d e] by simp
qed

lemma restart_invariants:
  assumes "sourcesCreated st"
  shows "tracked (startConversation granted st) \<and> sourcesCreated (startConversation granted st)"
  using assms by (simp add: tracked_def sourcesCreated_def startConversation_def Let_def)

section \<open>Properties of the transcript assembler\<close>







section \<open>Properties of the waveform container\<close>

lemma from_le16_le16: "from_le16 (ucast w) (ucast (drop_bit 8 w)) = (w :: 16 word)"
  unfolding from_le16_def
  by (rule bit_word_eqI) (auto simp: bit_simps)

lemma from_le32_le32:
  "from_le32 (ucast w) (ucast (drop_bit 8 w)) (ucast (drop_bit 16 w)) (ucast (drop_bit 24 w))
     = (w :: 32 word)"
  unfolding from_le32_def
proof (rule bit_word_eqI)
  fix n
  assume "n < LENGTH(32)"
  then consider "n < 8" | "8 \<le> n" "n < 16" | "16 \<le> n" "n < 24" | "24 \<le> n" "n < 32"
    by fastforce
  then show "bit (ucast (ucast w :: 8 word) OR push_bit 8 (ucast (ucast (drop_bit 8 w) :: 8 word))
               OR push_bit 16 (ucast (ucast (drop_bit 16 w) :: 8 word))
               OR push_bit 24 (ucast (ucast (drop_bit 24 w) :: 8 word)) :: 32 word) n = bit w n"
    by cases (auto simp: bit_simps)
qed


lemma samplesOf_le16: "samplesOf (concat (map le16 samples)) = Some samples"
  by (induction samples) (simp_all add: le16_def from_le16_le16)

lemma length_le16s: "length (concat (map le16 samples)) = 2 * length samples"
  by (induction samples) (simp_all add: le16_def)

lemma fixed_fields:
  "from_le16 1 0 = 1" "from_le16 16 0 = 16" "from_le32 16 0 0 0 = 16"
  by (simp_all add: from_le16_def from_le32_def)

lemma decode_encode: "decodeWAV (encodeWAV samples rate) = Some (samples, rate)"
proof -
  define h where "h = tagRIFF @ le32 (36 + of_nat (2 * length samples)) @ tagWAVE
         @ tagFmt @ le32 16 @ le16 1 @ le16 1 @ le32 rate @ le32 (rate * 2) @ le16 2 @ le16 16
         @ tagData @ le32 (of_nat (2 * length samples))"
  define payload where "payload = concat (map le16 samples)"
  have enc: "encodeWAV samples rate = h @ payload"
    by (simp add: encodeWAV_def h_def payload_def Let_def)
  have len: "length h = 44"
    by (simp add: h_def tagRIFF_def tagWAVE_def tagFmt_def tagData_def le32_def le16_def)
  have tags: "take 4 h = tagRIFF" "take 4 (drop 8 h) = tagWAVE" "take 4 (drop 12 h) = tagFmt"
    "take 4 (drop 36 h) = tagData"
    by (simp_all add: h_def tagRIFF_def tagWAVE_def tagFmt_def tagData_def le32_def le16_def)
  have fields: "field32 h 16 = 16" "field16 h 20 = 1" "field16 h 22 = 1" "field16 h 34 = 16"
    "field32 h 24 = rate" "field32 h 40 = of_nat (2 * length samples)"
    by (simp_all add: h_def tagRIFF_def tagWAVE_def tagFmt_def tagData_def le32_def le16_def
        field32_def field16_def fixed_fields from_le32_le32)
  have pre: "take 4 (h @ payload) = take 4 h" "take 4 (drop 8 (h @ payload)) = take 4 (drop 8 h)"
    "take 4 (drop 12 (h @ payload)) = take 4 (drop 12 h)"
    "take 4 (drop 36 (h @ payload)) = take 4 (drop 36 h)"
    "drop 44 (h @ payload) = payload"
    using len by simp_all
  have nth: "field32 (h @ payload) 16 = field32 h 16" "field16 (h @ payload) 20 = field16 h 20"
    "field16 (h @ payload) 22 = field16 h 22" "field16 (h @ payload) 34 = field16 h 34"
    "field32 (h @ payload) 24 = field32 h 24" "field32 (h @ payload) 40 = field32 h 40"
    using len by (simp_all add: field32_def field16_def nth_append)
  have size: "length (h @ payload) - 44 = 2 * length samples"
    using len by (simp add: payload_def length_le16s)
  have "\<not> length (h @ payload) < 44"
    using len by simp
  then show ?thesis
    unfolding enc decodeWAV_def pre nth size tags fields
    by (simp add: payload_def samplesOf_le16)
qed


text \<open>
  C9: for every buffer of PCM samples and every sample rate, decoding the file that the
  encoder builds gives back exactly the samples and the sample rate; so the file that
  \<open>handleDownloadAudio\<close> offers decodes to the channel data and the sample rate of the
  audio buffer.
\<close>

theorem wav_round_trip:
  "decodeWAV (encodeWAV samples rate) = Some (samples, rate)
   \<and> (handleDownloadAudio encodeWAV st = Some wav \<longrightarrow>
        (\<exists>buffer. audioBufferRef st = Some buffer
           \<and> decodeWAV wav = Some (channelData buffer, sampleRate buffer)))"
  by (auto simp: decode_encode handleDownloadAudio_def split: option.splits)

theorem wav_round_trip_witness:
  "decodeWAV (encodeWAV [1, 0xFFFF, 0x8000] 24000) = Some ([1, 0xFFFF, 0x8000], 24000)
   \<and> handleDownloadAudio encodeWAV spoken = Some (encodeWAV [1, 0xFFFF, 0x8000] 24000)"
proof -
  have offered: "handleDownloadAudio encodeWAV spoken = Some (encodeWAV [1, 0xFFFF, 0x8000] 24000)"
    by (simp add: handleDownloadAudio_def spoken_def)
  from wav_round_trip [of "[1, 0xFFFF, 0x8000]" 24000 spoken "encodeWAV [1, 0xFFFF, 0x8000] 24000"]
  show ?thesis
    using offered by blast
qed

end
